theory Spec2Isabelle
  imports Main "HOL-Library.Word"
begin

section \<open>Block enrichment pipeline of the sidecar (BlocksService)\<close>

text \<open>
  A shallow embedding of \<^verbatim>\<open>BlocksService\<close> (fetchBlock, extractExtrinsics,
  sanitizeEvents, createCalcFee, fetchEvents, parseGenericCall,
  parseArrayGenericCalls, extractAuthor).  Exceptions and rejected promises are
  values of the sum type \<open>error + 'a\<close>; the requests sent to the node are
  collected, in program order, in a list of \<open>rpc\<close> values returned next to
  the result; the in-place updates of the extrinsic records are explicit list
  updates.
\<close>

subsection \<open>Bytes, hashes and the strings made from them\<close>

type_synonym byte = "8 word"

type_synonym hash = "byte list"

definition hex_digit :: "nat \<Rightarrow> char" where
  "hex_digit n = ''0123456789abcdef'' ! (n mod 16)"

definition byte_hex :: "byte \<Rightarrow> string" where
  "byte_hex b = [hex_digit (unat b div 16), hex_digit (unat b mod 16)]"

text \<open>\<^verbatim>\<open>u8aToHex\<close>, which is also what \<^verbatim>\<open>toString()\<close> of a hash gives.\<close>

definition u8aToHex :: "byte list \<Rightarrow> string" where
  "u8aToHex bs = ''0x'' @ concat (map byte_hex bs)"

definition dec_digit :: "nat \<Rightarrow> char" where
  "dec_digit n = ''0123456789'' ! (n mod 10)"

text \<open>\<^verbatim>\<open>toString(10)\<close> of a non-negative integer.\<close>

fun dec_str :: "nat \<Rightarrow> string" where
  "dec_str n = (if n < 10 then [dec_digit n] else dec_str (n div 10) @ [dec_digit n])"

declare dec_str.simps [simp del]

text \<open>
  A value that a JavaScript variable of no fixed type holds: createCalcFee
  stores strings and numbers in \<^verbatim>\<open>specName\<close> and \<^verbatim>\<open>specVersion\<close>.
\<close>

datatype js = JsStr string | JsNum nat

fun js_toString :: "js \<Rightarrow> string" where
  "js_toString (JsStr s) = s"
| "js_toString (JsNum n) = dec_str n"

datatype json =
    JNull
  | JBool bool
  | JNum int
  | JStr string
  | JArr "json list"
  | JObj "(string \<times> json) list"

text \<open>Property access \<^verbatim>\<open>data.paysFee\<close> on a JSON value; \<open>None\<close> is \<^verbatim>\<open>undefined\<close>.\<close>

fun json_get :: "json \<Rightarrow> string \<Rightarrow> json option" where
  "json_get (JObj fs) k = map_of fs k"
| "json_get _ k = None"

datatype error =
    Error string
  | TypeError
  | InternalServerError string
  | RpcError string

subsection \<open>Calls and the call tree parser\<close>

text \<open>
  A codec value that is an argument of a call is an array (\<^verbatim>\<open>Array.isArray\<close>),
  a \<^verbatim>\<open>GenericCall\<close>, or any other codec value, given by its raw type name
  (\<^verbatim>\<open>toRawType()\<close>) and its bytes (\<^verbatim>\<open>toHex()\<close>).  The argument struct of a call
  is the list of its parameter names (\<^verbatim>\<open>defKeys\<close>, the keys of a Map, hence
  distinct) with the value of each.
\<close>

datatype codec_arg =
    CArray "codec_arg list"
  | CCall generic_call
  | CValue string "byte list"
and generic_call =
    GenericCall (gc_section: string) (gc_method: string) (gc_args: "(string \<times> codec_arg) list")

datatype sanitized =
    SCodec codec_arg
  | SCall sanitized_call
  | SArray "sanitized list"
and sanitized_call =
    SanitizedCall (sc_pallet: string) (sc_method: string) (sc_args: "(string \<times> sanitized) list")

text \<open>
  \<^verbatim>\<open>registry.createType('Call', hex)\<close>: \<open>None\<close> when the decoding throws.
\<close>

type_synonym registry = "byte list \<Rightarrow> generic_call option"

text \<open>
  The option monad's sequencing of a list: \<open>None\<close> as soon as one element is.
\<close>

fun all_some :: "'a option list \<Rightarrow> 'a list option" where
  "all_some [] = Some []"
| "all_some (None # xs) = None"
| "all_some (Some x # xs) = (case all_some xs of None \<Rightarrow> None | Some ys \<Rightarrow> Some (x # ys))"

text \<open>
  parseArrayGenericCalls and the body of the loop of parseGenericCall over the
  parameter names.  Both call \<^verbatim>\<open>this.parseGenericCall\<close>, which is the
  argument \<open>rec\<close> here; its result \<open>None\<close> stands for a call that does not
  return.
\<close>

definition parseArrayGenericCalls ::
  "(generic_call \<Rightarrow> sanitized_call option) \<Rightarrow> codec_arg list \<Rightarrow> sanitized list option" where
  "parseArrayGenericCalls rec argsArray =
     all_some (map (\<lambda>argument.
        case argument of
          CCall c \<Rightarrow> map_option SCall (rec c)
        | _ \<Rightarrow> Some (SCodec argument)) argsArray)"

definition parseArgument ::
  "registry \<Rightarrow> (generic_call \<Rightarrow> sanitized_call option) \<Rightarrow> string \<Rightarrow> codec_arg \<Rightarrow> sanitized option" where
  "parseArgument registry rec paramName argument =
     (case argument of
        CArray argsArray \<Rightarrow> map_option SArray (parseArrayGenericCalls rec argsArray)
      | CCall c \<Rightarrow> map_option SCall (rec c)
      | CValue rawType bytes \<Rightarrow>
          if paramName = ''call'' \<and> rawType = ''Bytes'' then
            (case registry bytes of
               Some call \<Rightarrow> map_option SCall (rec call)
             | None \<Rightarrow> Some (SCodec argument))
          else Some (SCodec argument))"

text \<open>
  parseGenericCall.  The recursion follows the decoded calls, which are not
  parts of the call being parsed, so the depth of the recursion is bounded by
  a fuel argument: \<open>None\<close> when the fuel is used up.
\<close>

fun parseGenericCall :: "registry \<Rightarrow> nat \<Rightarrow> generic_call \<Rightarrow> sanitized_call option" where
  "parseGenericCall registry 0 genericCall = None"
| "parseGenericCall registry (Suc fuel) genericCall =
     map_option (SanitizedCall (gc_section genericCall) (gc_method genericCall))
       (all_some (map (\<lambda>(paramName, argument).
          map_option (Pair paramName)
            (parseArgument registry (parseGenericCall registry fuel) paramName argument))
        (gc_args genericCall)))"

text \<open>
  The calls that one pass of the loop of parseGenericCall hands to
  \<^verbatim>\<open>this.parseGenericCall\<close> for an argument: the calls among the elements of
  an array, the argument when it is a call, and the call that the registry
  decodes from an opaque call; none when the decoding throws.
\<close>

definition nestedCallsOfArgument :: "registry \<Rightarrow> string \<Rightarrow> codec_arg \<Rightarrow> generic_call list" where
  "nestedCallsOfArgument registry paramName argument =
     (case argument of
        CArray argsArray \<Rightarrow> concat (map (\<lambda>x. case x of CCall c \<Rightarrow> [c] | _ \<Rightarrow> []) argsArray)
      | CCall c \<Rightarrow> [c]
      | CValue rawType bytes \<Rightarrow>
          if paramName = ''call'' \<and> rawType = ''Bytes'' then
            (case registry bytes of Some call \<Rightarrow> [call] | None \<Rightarrow> [])
          else [])"

definition nestedCalls :: "registry \<Rightarrow> generic_call \<Rightarrow> generic_call list" where
  "nestedCalls registry genericCall =
     concat (map (\<lambda>(paramName, argument). nestedCallsOfArgument registry paramName argument)
               (gc_args genericCall))"

text \<open>
  The size of a call: every node counts one and every other codec value
  counts its bytes.  A call inside a call is smaller than it.
\<close>

fun arg_weight :: "codec_arg \<Rightarrow> nat"
and call_weight :: "generic_call \<Rightarrow> nat" where
  "arg_weight (CArray xs) = Suc (sum_list (map arg_weight xs))"
| "arg_weight (CCall c) = call_weight c"
| "arg_weight (CValue t bs) = length bs"
| "call_weight (GenericCall s m as) = Suc (sum_list (map (\<lambda>(p, a). arg_weight a) as))"

text \<open>
  The opaque calls inside a call: the bytes of every argument named
  \<^verbatim>\<open>call\<close> of raw type \<^verbatim>\<open>Bytes\<close>, of the call and of the calls inside it.
\<close>

fun arg_payloads :: "string \<Rightarrow> codec_arg \<Rightarrow> byte list list"
and call_payloads :: "generic_call \<Rightarrow> byte list list" where
  "arg_payloads p (CArray xs) = concat (map (arg_payloads []) xs)"
| "arg_payloads p (CCall c) = call_payloads c"
| "arg_payloads p (CValue t bs) = (if p = ''call'' \<and> t = ''Bytes'' then [bs] else [])"
| "call_payloads (GenericCall s m as) = concat (map (\<lambda>(p, a). arg_payloads p a) as)"

text \<open>
  A registry under which the parse of every call returns: the opaque calls
  inside a decoded call are shorter than the bytes it was decoded from, of
  which they are parts.
\<close>

definition shrinking_registry :: "registry \<Rightarrow> bool" where
  "shrinking_registry registry \<longleftrightarrow>
     (\<forall>bs c. registry bs = Some c \<longrightarrow> (\<forall>b\<in>set (call_payloads c). length b < length bs))"

subsection \<open>Events, extrinsics and blocks\<close>

datatype phase = ApplyExtrinsic nat | Finalization | Initialization

text \<open>
  An item of the data of an event: its JSON form, and the properties
  \<^verbatim>\<open>weight\<close> and \<^verbatim>\<open>class\<close> that a \<^verbatim>\<open>DispatchInfo\<close> has (\<open>None\<close> is
  \<^verbatim>\<open>undefined\<close>).
\<close>

record codec =
  c_toJSON :: json
  c_weight :: "nat option"
  c_class :: "string option"

record event_record =
  ev_section :: string
  ev_method :: string
  ev_data :: "codec list"
  ev_documentation :: "string list"
  ev_phase :: phase

text \<open>The result of fetchEvents: \<^verbatim>\<open>EventRecord[] | string\<close>.\<close>

datatype events = Events "event_record list" | EventsStr string

record sanitized_event =
  se_method :: "string \<times> string"
  se_data :: "codec list"
  se_docs :: "string option"

text \<open>A \<^verbatim>\<open>GenericExtrinsic\<close> of the block as the node returns it.\<close>

record raw_extrinsic =
  re_method :: generic_call
  re_nonce :: nat
  re_signature :: "byte list"
  re_signer :: string
  re_isSigned :: bool
  re_tip :: nat
  re_toU8a :: "byte list"
  re_encodedLength :: nat
  re_documentation :: "string list"

text \<open>The field \<^verbatim>\<open>success\<close> of an extrinsic: \<^verbatim>\<open>string | boolean\<close>.\<close>

datatype success = SuccessBool bool | SuccessStr string

text \<open>
  The field \<^verbatim>\<open>info\<close>: the empty object, an object with an \<^verbatim>\<open>error\<close>
  message, or the \<^verbatim>\<open>RuntimeDispatchInfo\<close> that \<^verbatim>\<open>api.createType\<close> returned.
\<close>

datatype info = InfoEmpty | InfoError string | InfoDispatch json

text \<open>
  \<^verbatim>\<open>IExtrinsic\<close>.  \<open>None\<close> is \<^verbatim>\<open>null\<close> in the fields \<^verbatim>\<open>signature\<close>,
  \<^verbatim>\<open>nonce\<close>, \<^verbatim>\<open>tip\<close> and \<^verbatim>\<open>paysFee\<close>, and \<^verbatim>\<open>undefined\<close> in \<^verbatim>\<open>docs\<close>.
\<close>

record extrinsic =
  x_method :: "string \<times> string"
  x_signature :: "(byte list \<times> string) option"
  x_nonce :: "nat option"
  x_args :: "(string \<times> sanitized) list"
  x_tip :: "nat option"
  x_hash :: string
  x_info :: info
  x_events :: "sanitized_event list"
  x_success :: success
  x_paysFee :: "bool option"
  x_docs :: "string option"

datatype digest_type = PreRuntime | Consensus | OtherDigest string

text \<open>
  A digest log: its type, its index, and its value, for the two types that
  extractAuthor reads a pair of a consensus engine identifier and a payload.
\<close>

record digest_log =
  dl_type :: digest_type
  dl_index :: nat
  dl_value :: "string \<times> byte list"

record header =
  h_parentHash :: hash
  h_number :: nat
  h_stateRoot :: hash
  h_extrinsicsRoot :: hash
  h_digest :: "digest_log list"

record block =
  b_header :: header
  b_extrinsics :: "raw_extrinsic list"
  b_registry :: registry

record iblock =
  ib_number :: nat
  ib_hash :: hash
  ib_parentHash :: hash
  ib_stateRoot :: hash
  ib_extrinsicsRoot :: hash
  ib_authorId :: "string option"
  ib_logs :: "digest_log list"
  ib_onInitialize :: "sanitized_event list"
  ib_extrinsics :: "extrinsic list"
  ib_onFinalize :: "sanitized_event list"

subsection \<open>The fee calculator's inputs\<close>

record runtime_version =
  rv_specName :: string
  rv_specVersion :: nat

text \<open>An element of the constant \<^verbatim>\<open>transactionPayment.weightToFee\<close>.\<close>

record weight_coefficient =
  wc_coeffInteger :: nat
  wc_coeffFrac :: nat
  wc_degree :: nat
  wc_negative :: bool

text \<open>The same after the conversion that createCalcFee makes of it.\<close>

record fee_coefficient =
  fc_coeffInteger :: string
  fc_coeffFrac :: nat
  fc_degree :: nat
  fc_negative :: bool

text \<open>\<^verbatim>\<open>api.consts.transactionPayment\<close>; \<open>None\<close> is \<^verbatim>\<open>undefined\<close>.\<close>

record transaction_payment_consts =
  tp_transactionByteFee :: "nat option"
  tp_weightToFee :: "weight_coefficient list option"

text \<open>
  \<^verbatim>\<open>consts.system\<close>, with the chain \<^verbatim>\<open>blockWeights.perClass.normal.baseExtrinsic\<close>
  where each link can be \<^verbatim>\<open>undefined\<close>.
\<close>

record weights_per_class =
  wpc_baseExtrinsic :: "nat option"

record per_dispatch_class =
  pdc_normal :: "weights_per_class option"

record block_weights =
  bw_perClass :: "per_dispatch_class option"

record system_consts =
  sys_extrinsicBaseWeight :: "nat option"
  sys_blockWeights :: "block_weights option"

text \<open>The arguments of \<^verbatim>\<open>CalcFee.from_params\<close>, in their order.\<close>

record calc_params =
  cp_coefficients :: "fee_coefficient list"
  cp_extrinsicBaseWeight :: nat
  cp_multiplier :: string
  cp_perByteStr :: string
  cp_specName :: js
  cp_specVersion :: js

text \<open>
  The object \<^verbatim>\<open>calcFee\<close>: the dummy \<^verbatim>\<open>{ calc_fee: () => null }\<close>, or the one
  that \<^verbatim>\<open>CalcFee.from_params\<close> built from its arguments.
\<close>

datatype calc_object = Dummy | CalcFee calc_params

text \<open>
  The functions that BlocksService imports and that are not part of it: they
  are parameters of the model.  \<^verbatim>\<open>CalcFee.from_params\<close> returns no object for
  a runtime it does not support; \<^verbatim>\<open>calc_fee\<close> of an object it built can throw,
  and so can \<^verbatim>\<open>extractAuthor\<close> of a consensus engine, on a payload that it
  cannot decode.
\<close>

record deps =
  sanitizeDocs :: "string list \<Rightarrow> string"
  isPaysFee :: "json \<Rightarrow> bool"
  isFrameMethod :: "string \<times> string \<Rightarrow> bool"
  blake2AsU8a :: "byte list \<Rightarrow> byte list"
  expandMetadata :: "byte list \<Rightarrow> system_consts option"
  from_params_supported :: "calc_params \<Rightarrow> bool"
  calc_fee_wasm :: "calc_params \<Rightarrow> nat \<Rightarrow> nat \<Rightarrow> error + string"
  engine_extractAuthor :: "string \<Rightarrow> byte list \<Rightarrow> string list \<Rightarrow> error + string option"

text \<open>
  \<^verbatim>\<open>ApiPromise\<close>: what the node answers to each request at each hash (\<open>Inl\<close>
  is a rejected promise), the constants and the version of the runtime the
  api is connected to, and \<^verbatim>\<open>createType('RuntimeDispatchInfo', ...)\<close>.  A
  query whose function \<^verbatim>\<open>at\<close> does not exist is \<open>None\<close>.
\<close>

record api =
  rpc_chain_getBlock :: "hash \<Rightarrow> error + block"
  rpc_chain_getHeader :: "hash \<Rightarrow> error + header"
  rpc_state_getRuntimeVersion :: "hash \<Rightarrow> error + runtime_version"
  rpc_state_getMetadata :: "hash \<Rightarrow> error + byte list"
  query_system_events_at :: "hash \<Rightarrow> error + event_record list"
  query_session_validators_at :: "(hash \<Rightarrow> error + string list) option"
  query_transactionPayment_nextFeeMultiplier_at :: "(hash \<Rightarrow> error + nat) option"
  consts_transactionPayment :: "transaction_payment_consts option"
  consts_system :: system_consts
  api_runtimeVersion :: runtime_version
  createType_RuntimeDispatchInfo :: "nat \<Rightarrow> string option \<Rightarrow> string option \<Rightarrow> error + json"

text \<open>The requests sent to the node.\<close>

datatype rpc =
    GetBlock hash
  | GetHeader hash
  | GetRuntimeVersion hash
  | GetMetadata hash
  | EventsAt hash
  | ValidatorsAt hash
  | NextFeeMultiplierAt hash

subsection \<open>extractExtrinsics\<close>

text \<open>
  \<^verbatim>\<open>block.registry.createType('Call', method)\<close> of a method that is a call
  already is that call.  The result is \<open>None\<close> when parseGenericCall does not
  return for one of the extrinsics.
\<close>

definition extractExtrinsic ::
  "deps \<Rightarrow> success \<Rightarrow> bool \<Rightarrow> raw_extrinsic \<Rightarrow> sanitized_call \<Rightarrow> extrinsic" where
  "extractExtrinsic d defaultSuccess extrinsicDocs extrinsic call =
     \<lparr> x_method = (gc_section (re_method extrinsic), gc_method (re_method extrinsic)),
       x_signature = (if re_isSigned extrinsic
                      then Some (re_signature extrinsic, re_signer extrinsic) else None),
       x_nonce = (if re_isSigned extrinsic then Some (re_nonce extrinsic) else None),
       x_args = sc_args call,
       x_tip = (if re_isSigned extrinsic then Some (re_tip extrinsic) else None),
       x_hash = u8aToHex (blake2AsU8a d (re_toU8a extrinsic)),
       x_info = InfoEmpty,
       x_events = [],
       x_success = defaultSuccess,
       x_paysFee = (if re_isSigned extrinsic then None else Some False),
       x_docs = (if extrinsicDocs then Some (sanitizeDocs d (re_documentation extrinsic))
                 else None) \<rparr>"

definition extractExtrinsics ::
  "deps \<Rightarrow> nat \<Rightarrow> block \<Rightarrow> events \<Rightarrow> bool \<Rightarrow> extrinsic list option" where
  "extractExtrinsics d fuel block events extrinsicDocs =
     (let defaultSuccess =
            (case events of EventsStr s \<Rightarrow> SuccessStr s | Events evs \<Rightarrow> SuccessBool False)
      in all_some (map (\<lambda>extrinsic.
           map_option (extractExtrinsic d defaultSuccess extrinsicDocs extrinsic)
             (parseGenericCall (b_registry block) fuel (re_method extrinsic)))
         (b_extrinsics block)))"

subsection \<open>sanitizeEvents\<close>

definition sanitizeEvent :: "deps \<Rightarrow> bool \<Rightarrow> event_record \<Rightarrow> sanitized_event" where
  "sanitizeEvent d eventDocs record =
     \<lparr> se_method = (ev_section record, ev_method record),
       se_data = ev_data record,
       se_docs = (if eventDocs then Some (sanitizeDocs d (ev_documentation record)) else None) \<rparr>"

text \<open>
  What the branch \<^verbatim>\<open>phase.isApplyExtrinsic\<close> does to the extrinsic it found.
  The inner loop stops at the first item of the data that \<^verbatim>\<open>isPaysFee\<close>
  accepts, and does nothing when the extrinsic has no signature.
\<close>

definition setSuccess :: "event_record \<Rightarrow> extrinsic \<Rightarrow> extrinsic" where
  "setSuccess record extrinsic =
     (if ev_method record = ''ExtrinsicSuccess''
      then extrinsic\<lparr>x_success := SuccessBool True\<rparr> else extrinsic)"

definition setPaysFee :: "deps \<Rightarrow> event_record \<Rightarrow> extrinsic \<Rightarrow> extrinsic" where
  "setPaysFee d record extrinsic =
     (if ev_method record = ''ExtrinsicSuccess'' \<or> ev_method record = ''ExtrinsicFailed'' then
        (let sanitizedData = map c_toJSON (ev_data record) in
         if x_signature extrinsic \<noteq> None then
           (case find (isPaysFee d) sanitizedData of
              Some data \<Rightarrow>
                extrinsic\<lparr>x_paysFee :=
                  Some (json_get data ''paysFee'' = Some (JBool True)
                        \<or> json_get data ''paysFee'' = Some (JStr ''Yes''))\<rparr>
            | None \<Rightarrow> extrinsic)
         else extrinsic)
      else extrinsic)"

definition attributeEvent :: "deps \<Rightarrow> bool \<Rightarrow> event_record \<Rightarrow> extrinsic \<Rightarrow> extrinsic" where
  "attributeEvent d eventDocs record extrinsic =
     (let e1 = setSuccess record extrinsic;
          e2 = setPaysFee d record e1
      in e2\<lparr>x_events := x_events e2 @ [sanitizeEvent d eventDocs record]\<rparr>)"

record attribution =
  at_extrinsics :: "extrinsic list"
  at_onInitialize :: "sanitized_event list"
  at_onFinalize :: "sanitized_event list"

text \<open>
  The body of the loop over the events.  \<^verbatim>\<open>extrinsics[extrinsicIdx]\<close> is
  \<^verbatim>\<open>undefined\<close> exactly when the index is not below the length of the array.
\<close>

definition sanitizeEventsStep ::
  "deps \<Rightarrow> hash \<Rightarrow> bool \<Rightarrow> event_record \<Rightarrow> attribution \<Rightarrow> error + attribution" where
  "sanitizeEventsStep d hash eventDocs record st =
     (case ev_phase record of
        ApplyExtrinsic extrinsicIdx \<Rightarrow>
          if extrinsicIdx < length (at_extrinsics st) then
            Inr (st\<lparr>at_extrinsics := (at_extrinsics st)
                   [extrinsicIdx := attributeEvent d eventDocs record (at_extrinsics st ! extrinsicIdx)]\<rparr>)
          else
            Inl (Error (''Missing extrinsic '' @ dec_str extrinsicIdx @ '' in block '' @ u8aToHex hash))
      | Finalization \<Rightarrow>
          Inr (st\<lparr>at_onFinalize := at_onFinalize st @ [sanitizeEvent d eventDocs record]\<rparr>)
      | Initialization \<Rightarrow>
          Inr (st\<lparr>at_onInitialize := at_onInitialize st @ [sanitizeEvent d eventDocs record]\<rparr>))"

fun sanitizeEventsLoop ::
  "deps \<Rightarrow> hash \<Rightarrow> bool \<Rightarrow> event_record list \<Rightarrow> attribution \<Rightarrow> error + attribution" where
  "sanitizeEventsLoop d hash eventDocs [] st = Inr st"
| "sanitizeEventsLoop d hash eventDocs (record # rest) st =
     (case sanitizeEventsStep d hash eventDocs record st of
        Inl e \<Rightarrow> Inl e
      | Inr st' \<Rightarrow> sanitizeEventsLoop d hash eventDocs rest st')"

definition sanitizeEvents ::
  "deps \<Rightarrow> events \<Rightarrow> extrinsic list \<Rightarrow> hash \<Rightarrow> bool \<Rightarrow> error + attribution" where
  "sanitizeEvents d events extrinsics hash eventDocs =
     (let st = \<lparr> at_extrinsics = extrinsics, at_onInitialize = [], at_onFinalize = [] \<rparr>
      in case events of
           Events evs \<Rightarrow> sanitizeEventsLoop d hash eventDocs evs st
         | EventsStr s \<Rightarrow> Inr st)"

subsection \<open>Requests to the node\<close>

text \<open>
  An asynchronous computation gives its result, or the error it was rejected
  with, and the requests it sent.  \<open>request\<close> is one awaited request,
  \<open>bind\<close> is \<^verbatim>\<open>await\<close> followed by the rest of the function, and \<open>all2\<close>
  is \<^verbatim>\<open>Promise.all\<close> of two promises: both requests are sent, and the result
  is rejected when one of them is (with the error of the first in the array,
  where the program gives the one that is rejected first in time).
\<close>

type_synonym 'a async = "(error + 'a) \<times> rpc list"

definition pure :: "'a \<Rightarrow> 'a async" where
  "pure x = (Inr x, [])"

definition throw :: "error \<Rightarrow> 'a async" where
  "throw e = (Inl e, [])"

definition request :: "rpc \<Rightarrow> error + 'a \<Rightarrow> 'a async" where
  "request r answer = (answer, [r])"

definition bind :: "'a async \<Rightarrow> ('a \<Rightarrow> 'b async) \<Rightarrow> 'b async" where
  "bind m f =
     (case m of
        (Inl e, l) \<Rightarrow> (Inl e, l)
      | (Inr x, l) \<Rightarrow> (case f x of (r, l') \<Rightarrow> (r, l @ l')))"

definition all2 :: "'a async \<Rightarrow> 'b async \<Rightarrow> ('a \<times> 'b) async" where
  "all2 m1 m2 =
     (case m1 of (r1, l1) \<Rightarrow> case m2 of (r2, l2) \<Rightarrow>
        ((case r1 of
            Inl e \<Rightarrow> Inl e
          | Inr x \<Rightarrow> (case r2 of Inl e \<Rightarrow> Inl e | Inr y \<Rightarrow> Inr (x, y))),
         l1 @ l2))"

subsection \<open>fetchEvents\<close>

text \<open>The string that fetchEvents returns when the query is rejected.\<close>

definition eventsUnavailable :: string where
  "eventsUnavailable =
     ''Unable to fetch Events, cannot confirm extrinsic status. Check pruning settings on the node.''"

definition fetchEvents :: "api \<Rightarrow> hash \<Rightarrow> events async" where
  "fetchEvents a hash =
     (case query_system_events_at a hash of
        Inr evs \<Rightarrow> Inr (Events evs)
      | Inl e \<Rightarrow> Inr (EventsStr eventsUnavailable),
      [EventsAt hash])"

subsection \<open>createCalcFee\<close>

record calc_fee_result =
  cr_calcFee :: "calc_object option"
  cr_specName :: js
  cr_specVersion :: js

text \<open>
  \<^verbatim>\<open>api.consts.system.extrinsicBaseWeight ||
  api.consts.system.blockWeights.perClass.normal.baseExtrinsic\<close>: reading a
  property of \<^verbatim>\<open>undefined\<close> throws a TypeError.
\<close>

definition extrinsicBaseWeightExists :: "api \<Rightarrow> error + nat option" where
  "extrinsicBaseWeightExists a =
     (case sys_extrinsicBaseWeight (consts_system a) of
        Some w \<Rightarrow> Inr (Some w)
      | None \<Rightarrow>
          (case sys_blockWeights (consts_system a) of
             None \<Rightarrow> Inl TypeError
           | Some bw \<Rightarrow>
               (case bw_perClass bw of
                  None \<Rightarrow> Inl TypeError
                | Some pc \<Rightarrow>
                    (case pdc_normal pc of
                       None \<Rightarrow> Inl TypeError
                     | Some n \<Rightarrow> Inr (wpc_baseExtrinsic n)))))"

text \<open>
  \<^verbatim>\<open>system?.extrinsicBaseWeight || (system?.blockWeights).perClass?.normal?.baseExtrinsic\<close>,
  which createCalcFee reads from the decorated historical metadata, and from
  the constants of the api (whose \<^verbatim>\<open>system\<close> is defined).
\<close>

definition baseExtrinsicWeight :: "system_consts option \<Rightarrow> error + nat option" where
  "baseExtrinsicWeight system =
     (case (case system of None \<Rightarrow> None | Some s \<Rightarrow> sys_extrinsicBaseWeight s) of
        Some w \<Rightarrow> Inr (Some w)
      | None \<Rightarrow>
          (case (case system of None \<Rightarrow> None | Some s \<Rightarrow> sys_blockWeights s) of
             None \<Rightarrow> Inl TypeError
           | Some bw \<Rightarrow>
               Inr (case bw_perClass bw of
                      None \<Rightarrow> None
                    | Some pc \<Rightarrow>
                        (case pdc_normal pc of
                           None \<Rightarrow> None
                         | Some n \<Rightarrow> wpc_baseExtrinsic n))))"

definition coefficient :: "weight_coefficient \<Rightarrow> fee_coefficient" where
  "coefficient c =
     \<lparr> fc_coeffInteger = dec_str (wc_coeffInteger c),
       fc_coeffFrac = wc_coeffFrac c,
       fc_degree = wc_degree c,
       fc_negative = wc_negative c \<rparr>"

text \<open>\<^verbatim>\<open>CalcFee.from_params\<close>: \<open>None\<close> is the missing object.\<close>

definition from_params :: "deps \<Rightarrow> calc_params \<Rightarrow> calc_object option" where
  "from_params d p = (if from_params_supported d p then Some (CalcFee p) else None)"

text \<open>The branch of createCalcFee that has no materials to build calcFee.\<close>

definition createCalcFeeDummy :: "api \<Rightarrow> hash \<Rightarrow> calc_fee_result async" where
  "createCalcFeeDummy a parentHash =
     bind (request (GetRuntimeVersion parentHash) (rpc_state_getRuntimeVersion a parentHash))
       (\<lambda>version.
          pure \<lparr> cr_calcFee = Some Dummy,
                 cr_specName = JsNum (rv_specVersion version),
                 cr_specVersion = JsStr (rv_specName version) \<rparr>)"

text \<open>The hash at which the branch that builds calcFee asks for the runtime version.\<close>

definition parentParentHash :: "api \<Rightarrow> hash \<Rightarrow> block \<Rightarrow> hash async" where
  "parentParentHash a parentHash block =
     (if h_number (b_header block) > 1 then
        bind (request (GetHeader parentHash) (rpc_chain_getHeader a parentHash))
          (\<lambda>hdr. pure (h_parentHash hdr))
      else pure parentHash)"

definition extrinsicBaseWeight ::
  "api \<Rightarrow> deps \<Rightarrow> hash \<Rightarrow> js \<Rightarrow> js \<Rightarrow> nat option async" where
  "extrinsicBaseWeight a d pph specName specVersion =
     (if specName \<noteq> JsStr (rv_specName (api_runtimeVersion a))
         \<or> specVersion \<noteq> JsNum (rv_specVersion (api_runtimeVersion a)) then
        bind (request (GetMetadata pph) (rpc_state_getMetadata a pph))
          (\<lambda>metadata.
             case baseExtrinsicWeight (expandMetadata d metadata) of
               Inl e \<Rightarrow> throw e
             | Inr w \<Rightarrow> pure w)
      else
        (case baseExtrinsicWeight (Some (consts_system a)) of
           Inl e \<Rightarrow> throw e
         | Inr w \<Rightarrow> pure w))"

definition perByteStr :: "nat \<Rightarrow> block \<Rightarrow> string" where
  "perByteStr perByte block =
     (if h_number (b_header block) < 515500 then ''1000000000'' else dec_str perByte)"

text \<open>The message of the error that createCalcFee throws when it finds no base weight.\<close>

definition extrinsicBaseWeightUndefined :: string where
  "extrinsicBaseWeightUndefined =
     ''`extrinsicBaseWeight` is not defined when it was expected to be defined. File an issue at https://github.com/paritytech/substrate-api-sidecar/issues''"

text \<open>The branch of createCalcFee that builds calcFee with \<^verbatim>\<open>CalcFee.from_params\<close>.\<close>

definition createCalcFeeFromParams ::
  "api \<Rightarrow> deps \<Rightarrow> hash \<Rightarrow> block \<Rightarrow> nat \<Rightarrow> (hash \<Rightarrow> error + nat) \<Rightarrow> calc_fee_result async" where
  "createCalcFeeFromParams a d parentHash block perByte nextFeeMultiplierAt =
     (case (case consts_transactionPayment a of None \<Rightarrow> None | Some tp \<Rightarrow> tp_weightToFee tp) of
        None \<Rightarrow> throw TypeError
      | Some weightToFee \<Rightarrow>
          (let coefficients = map coefficient weightToFee in
           bind (parentParentHash a parentHash block) (\<lambda>pph.
           bind (all2 (request (GetRuntimeVersion pph) (rpc_state_getRuntimeVersion a pph))
                      (request (NextFeeMultiplierAt parentHash) (nextFeeMultiplierAt parentHash)))
             (\<lambda>(version, multiplier).
           let specName = JsStr (rv_specName version);
               specVersion = JsNum (rv_specVersion version)
           in
           bind (extrinsicBaseWeight a d pph specName specVersion) (\<lambda>ebw.
           case ebw of
             None \<Rightarrow> throw (InternalServerError extrinsicBaseWeightUndefined)
           | Some w \<Rightarrow>
               pure \<lparr> cr_calcFee = from_params d
                        \<lparr> cp_coefficients = coefficients,
                          cp_extrinsicBaseWeight = w,
                          cp_multiplier = dec_str multiplier,
                          cp_perByteStr = perByteStr perByte block,
                          cp_specName = specName,
                          cp_specVersion = specVersion \<rparr>,
                      cr_specName = specName,
                      cr_specVersion = specVersion \<rparr>)))))"

definition createCalcFee :: "api \<Rightarrow> deps \<Rightarrow> hash \<Rightarrow> block \<Rightarrow> calc_fee_result async" where
  "createCalcFee a d parentHash block =
     (let perByte = (case consts_transactionPayment a of
                       None \<Rightarrow> None
                     | Some tp \<Rightarrow> tp_transactionByteFee tp)
      in case extrinsicBaseWeightExists a of
           Inl e \<Rightarrow> throw e
         | Inr exists \<Rightarrow>
             (case perByte of
                None \<Rightarrow> createCalcFeeDummy a parentHash
              | Some perByte' \<Rightarrow>
                  (case exists of
                     None \<Rightarrow> createCalcFeeDummy a parentHash
                   | Some w \<Rightarrow>
                       (case query_transactionPayment_nextFeeMultiplier_at a of
                          None \<Rightarrow> createCalcFeeDummy a parentHash
                        | Some nextFeeMultiplierAt \<Rightarrow>
                            createCalcFeeFromParams a d parentHash block perByte'
                              nextFeeMultiplierAt))))"

subsection \<open>The fee loop of fetchBlock\<close>

text \<open>\<^verbatim>\<open>calcFee.calc_fee(weight, len)\<close>: the dummy returns \<^verbatim>\<open>null\<close>.\<close>

fun calc_fee :: "deps \<Rightarrow> calc_object \<Rightarrow> nat \<Rightarrow> nat \<Rightarrow> error + string option" where
  "calc_fee d Dummy weight len = Inr None"
| "calc_fee d (CalcFee p) weight len =
     (case calc_fee_wasm d p weight len of Inl e \<Rightarrow> Inl e | Inr fee \<Rightarrow> Inr (Some fee))"

text \<open>
  The \<^verbatim>\<open>try\<close> block.  The data of an event is an array, which is never falsy,
  so the test \<^verbatim>\<open>!completedData\<close> fails; the last element of an empty array is
  \<^verbatim>\<open>undefined\<close>, and reading its \<^verbatim>\<open>weight\<close> throws a TypeError.
\<close>

definition completedEvent :: "deps \<Rightarrow> sanitized_event list \<Rightarrow> sanitized_event option" where
  "completedEvent d xtEvents =
     find (\<lambda>e. isFrameMethod d (se_method e)
                \<and> (snd (se_method e) = ''ExtrinsicSuccess'' \<or> snd (se_method e) = ''ExtrinsicFailed''))
       xtEvents"

definition tryFeeInfo ::
  "api \<Rightarrow> deps \<Rightarrow> calc_object \<Rightarrow> extrinsic \<Rightarrow> raw_extrinsic \<Rightarrow> error + info" where
  "tryFeeInfo a d calcFee extrinsic raw =
     (case completedEvent d (x_events extrinsic) of
        None \<Rightarrow> Inr (InfoError ''Unable to find success or failure event for extrinsic'')
      | Some ev \<Rightarrow>
          (let completedData = se_data ev in
           if completedData = [] then Inl TypeError
           else
             (let weightInfo = last completedData in
              case c_weight weightInfo of
                None \<Rightarrow> Inr (InfoError
                  ''Success or failure event for extrinsic does not specify weight'')
              | Some weight \<Rightarrow>
                  (case calc_fee d calcFee weight (re_encodedLength raw) of
                     Inl e \<Rightarrow> Inl e
                   | Inr partialFee \<Rightarrow>
                       (case createType_RuntimeDispatchInfo a weight (c_class weightInfo) partialFee of
                          Inl e \<Rightarrow> Inl e
                        | Inr rdi \<Rightarrow> Inr (InfoDispatch rdi))))))"

text \<open>
  The \<^verbatim>\<open>info\<close> that one pass of the loop body stores, \<open>None\<close> when it
  \<^verbatim>\<open>continue\<close>s without storing one.  The \<^verbatim>\<open>catch\<close> turns every error of the
  \<^verbatim>\<open>try\<close> block into an error message.
\<close>

definition feeInfo ::
  "api \<Rightarrow> deps \<Rightarrow> calc_fee_result \<Rightarrow> extrinsic \<Rightarrow> raw_extrinsic \<Rightarrow> info option" where
  "feeInfo a d r extrinsic raw =
     (if x_paysFee extrinsic \<noteq> Some True \<or> \<not> re_isSigned raw then None
      else
        (case cr_calcFee r of
           None \<Rightarrow> Some (InfoError (''Fee calculation not supported for ''
                     @ js_toString (cr_specName r) @ ''#'' @ js_toString (cr_specVersion r)))
         | Some calcFee \<Rightarrow>
             (case tryFeeInfo a d calcFee extrinsic raw of
                Inl err \<Rightarrow> Some (InfoError ''Unable to fetch fee info'')
              | Inr i \<Rightarrow> Some i)))"

text \<open>
  The loop body at index \<open>idx\<close>: \<^verbatim>\<open>extrinsics[idx]\<close> is \<^verbatim>\<open>undefined\<close> beyond
  the end of the array, and reading its \<^verbatim>\<open>paysFee\<close> throws then.
\<close>

definition feeLoopBody ::
  "api \<Rightarrow> deps \<Rightarrow> calc_fee_result \<Rightarrow> nat \<Rightarrow> raw_extrinsic \<Rightarrow> extrinsic list
   \<Rightarrow> error + extrinsic list" where
  "feeLoopBody a d r idx raw extrinsics =
     (if idx < length extrinsics then
        (case feeInfo a d r (extrinsics ! idx) raw of
           None \<Rightarrow> Inr extrinsics
         | Some i \<Rightarrow> Inr (extrinsics[idx := (extrinsics ! idx)\<lparr>x_info := i\<rparr>]))
      else Inl TypeError)"

text \<open>
  The loop \<^verbatim>\<open>for (idx = 0; idx < block.extrinsics.length; ++idx)\<close>, from the
  index \<open>idx\<close> on, over the extrinsics of the block that are left.
\<close>

fun feeLoop ::
  "api \<Rightarrow> deps \<Rightarrow> calc_fee_result \<Rightarrow> nat \<Rightarrow> raw_extrinsic list \<Rightarrow> extrinsic list
   \<Rightarrow> error + extrinsic list" where
  "feeLoop a d r idx [] extrinsics = Inr extrinsics"
| "feeLoop a d r idx (raw # rest) extrinsics =
     (case feeLoopBody a d r idx raw extrinsics of
        Inl e \<Rightarrow> Inl e
      | Inr extrinsics' \<Rightarrow> feeLoop a d r (Suc idx) rest extrinsics')"

subsection \<open>extractAuthor\<close>

text \<open>
  extractAuthor returns what \<^verbatim>\<open>engine.extractAuthor\<close> returns, and throws
  what it throws; \<open>Inr None\<close> is \<^verbatim>\<open>undefined\<close>.
\<close>

definition extractAuthor ::
  "deps \<Rightarrow> string list \<Rightarrow> digest_log list \<Rightarrow> error + string option" where
  "extractAuthor d sessionValidators digest =
     (case filter (\<lambda>l. dl_type l = PreRuntime) digest of
        pitem # _ \<Rightarrow>
          (case dl_value pitem of (engine, data) \<Rightarrow>
             engine_extractAuthor d engine data sessionValidators)
      | [] \<Rightarrow>
          (case filter (\<lambda>l. dl_type l = Consensus) digest of
             citem # _ \<Rightarrow>
               (case dl_value citem of (engine, data) \<Rightarrow>
                  engine_extractAuthor d engine data sessionValidators)
           | [] \<Rightarrow> Inr None))"

text \<open>
  \<^verbatim>\<open>sessionValidators ? this.extractAuthor(sessionValidators, digest) : undefined\<close>,
  which fetchBlock evaluates outside of any \<^verbatim>\<open>try\<close>.
\<close>

definition authorIdOf ::
  "deps \<Rightarrow> string list option \<Rightarrow> digest_log list \<Rightarrow> error + string option" where
  "authorIdOf d sessionValidators digest =
     (case sessionValidators of
        Some validators \<Rightarrow> extractAuthor d validators digest
      | None \<Rightarrow> Inr None)"

subsection \<open>fetchBlock\<close>

text \<open>
  The first \<^verbatim>\<open>Promise.all\<close>: the block, the events, and the validators when
  the api has the query.
\<close>

definition fetchAll :: "api \<Rightarrow> hash \<Rightarrow> (block \<times> events \<times> string list option) async" where
  "fetchAll a hash =
     (case query_session_validators_at a of
        Some validatorsAt \<Rightarrow>
          bind (all2 (request (GetBlock hash) (rpc_chain_getBlock a hash))
                 (all2 (fetchEvents a hash)
                       (request (ValidatorsAt hash) (validatorsAt hash))))
            (\<lambda>(block, events, sessionValidators). pure (block, events, Some sessionValidators))
      | None \<Rightarrow>
          bind (all2 (request (GetBlock hash) (rpc_chain_getBlock a hash))
                     (fetchEvents a hash))
            (\<lambda>(block, events). pure (block, events, None)))"

definition isGenesis :: "hash \<Rightarrow> bool" where
  "isGenesis parentHash \<longleftrightarrow> list_all (\<lambda>byte. byte = 0) parentHash"

definition assemble ::
  "hash \<Rightarrow> block \<Rightarrow> string option \<Rightarrow> attribution \<Rightarrow> extrinsic list \<Rightarrow> iblock" where
  "assemble hash block authorId att extrinsics =
     \<lparr> ib_number = h_number (b_header block),
       ib_hash = hash,
       ib_parentHash = h_parentHash (b_header block),
       ib_stateRoot = h_stateRoot (b_header block),
       ib_extrinsicsRoot = h_extrinsicsRoot (b_header block),
       ib_authorId = authorId,
       ib_logs = h_digest (b_header block),
       ib_onInitialize = at_onInitialize att,
       ib_extrinsics = extrinsics,
       ib_onFinalize = at_onFinalize att \<rparr>"

text \<open>
  fetchBlock.  The result is \<open>None\<close> when the parse of a call does not return
  within the fuel; otherwise it is the block or the error, with the requests
  sent to the node.  The author is extracted first, then the extrinsics, then
  the events are attributed.
\<close>

definition fetchBlock ::
  "api \<Rightarrow> deps \<Rightarrow> nat \<Rightarrow> hash \<Rightarrow> bool \<Rightarrow> bool \<Rightarrow> iblock async option" where
  "fetchBlock a d fuel hash eventDocs extrinsicDocs =
     (case fetchAll a hash of
        (Inl e, l) \<Rightarrow> Some (Inl e, l)
      | (Inr (block, events, sessionValidators), l) \<Rightarrow>
          (case authorIdOf d sessionValidators (h_digest (b_header block)) of
             Inl e \<Rightarrow> Some (Inl e, l)
           | Inr authorId \<Rightarrow>
               (let parentHash = h_parentHash (b_header block)
                in case extractExtrinsics d fuel block events extrinsicDocs of
                     None \<Rightarrow> None
                   | Some nonSanitizedExtrinsics \<Rightarrow>
                       (case sanitizeEvents d events nonSanitizedExtrinsics hash eventDocs of
                          Inl e \<Rightarrow> Some (Inl e, l)
                        | Inr att \<Rightarrow>
                            if isGenesis parentHash then
                              Some (Inr (assemble hash block authorId att (at_extrinsics att)), l)
                            else
                              (case createCalcFee a d parentHash block of
                                 (Inl e, l') \<Rightarrow> Some (Inl e, l @ l')
                               | (Inr r, l') \<Rightarrow>
                                   (case feeLoop a d r 0 (b_extrinsics block) (at_extrinsics att) of
                                      Inl e \<Rightarrow> Some (Inl e, l @ l')
                                    | Inr extrinsics \<Rightarrow>
                                        Some (Inr (assemble hash block authorId att extrinsics),
                                              l @ l')))))))"

subsection \<open>What the fee loop does to one extrinsic, and the parts of a result\<close>

text \<open>
  The extrinsic at an index after the pass of the fee loop at that index
  (feeLoop_whole shows that the loop is this function, index by index).
\<close>

definition feeAnnotate ::
  "api \<Rightarrow> deps \<Rightarrow> calc_fee_result \<Rightarrow> extrinsic \<Rightarrow> raw_extrinsic \<Rightarrow> extrinsic" where
  "feeAnnotate a d r extrinsic raw =
     (case feeInfo a d r extrinsic raw of
        None \<Rightarrow> extrinsic
      | Some i \<Rightarrow> extrinsic\<lparr>x_info := i\<rparr>)"

text \<open>The block, its extrinsics and the requests sent, of a result of fetchBlock.\<close>

definition result_block :: "iblock async option \<Rightarrow> iblock option" where
  "result_block res = (case res of Some (Inr blk, l) \<Rightarrow> Some blk | _ \<Rightarrow> None)"

definition result_extrinsics :: "iblock async option \<Rightarrow> extrinsic list" where
  "result_extrinsics res = (case result_block res of Some blk \<Rightarrow> ib_extrinsics blk | None \<Rightarrow> [])"

definition result_requests :: "iblock async option \<Rightarrow> rpc list" where
  "result_requests res = (case res of Some (r, l) \<Rightarrow> l | None \<Rightarrow> [])"

section \<open>Example inputs\<close>

text \<open>
  A block with three extrinsics: an unsigned \<^verbatim>\<open>timestamp.set\<close>, a signed
  \<^verbatim>\<open>balances.transfer\<close> and a signed \<^verbatim>\<open>multisig.asMulti\<close> whose opaque call
  does not decode; a registry that decodes one sequence of bytes; an api whose
  node reports the runtime version 1 at the grandparent hash and 2 elsewhere;
  a fee calculator that throws for the extrinsic of encoded length 152; a
  consensus engine that throws on an empty payload.
\<close>

definition ex_transfer :: generic_call where
  "ex_transfer = GenericCall ''balances'' ''transfer''
     [(''dest'', CValue ''AccountId'' [1, 2]), (''value'', CValue ''Compact<Balance>'' [7])]"

definition ex_asMulti :: generic_call where
  "ex_asMulti = GenericCall ''multisig'' ''asMulti''
     [(''threshold'', CValue ''u16'' [2, 0]), (''call'', CValue ''Bytes'' [5, 0, 1, 2, 7])]"

definition ex_badMulti :: generic_call where
  "ex_badMulti = GenericCall ''multisig'' ''asMulti''
     [(''threshold'', CValue ''u16'' [2, 0]), (''call'', CValue ''Bytes'' [255])]"

definition ex_registry :: registry where
  "ex_registry bs = (if bs = [5, 0, 1, 2, 7] then Some ex_transfer else None)"

definition ex_dispatchInfo :: codec where
  "ex_dispatchInfo =
     \<lparr> c_toJSON = JObj [(''weight'', JNum 190949000), (''class'', JStr ''Normal''),
                        (''paysFee'', JStr ''Yes'')],
       c_weight = Some 190949000,
       c_class = Some ''Normal'' \<rparr>"

definition ex_dispatchError :: codec where
  "ex_dispatchError =
     \<lparr> c_toJSON = JObj [(''Module'', JObj [(''index'', JNum 5), (''error'', JNum 3)])],
       c_weight = None,
       c_class = None \<rparr>"

definition ex_successEvent :: "nat \<Rightarrow> event_record" where
  "ex_successEvent i =
     \<lparr> ev_section = ''system'', ev_method = ''ExtrinsicSuccess'', ev_data = [ex_dispatchInfo],
       ev_documentation = ['' An extrinsic completed successfully.''],
       ev_phase = ApplyExtrinsic i \<rparr>"

definition ex_failedEvent :: "nat \<Rightarrow> event_record" where
  "ex_failedEvent i =
     \<lparr> ev_section = ''system'', ev_method = ''ExtrinsicFailed'',
       ev_data = [ex_dispatchError, ex_dispatchInfo],
       ev_documentation = ['' An extrinsic failed.''],
       ev_phase = ApplyExtrinsic i \<rparr>"

definition ex_events :: "event_record list" where
  "ex_events = [ex_successEvent 0, ex_successEvent 1, ex_failedEvent 2]"

definition ex_timestamp :: generic_call where
  "ex_timestamp = GenericCall ''timestamp'' ''set'' [(''now'', CValue ''Compact<Moment>'' [9])]"

definition ex_raw :: "generic_call \<Rightarrow> bool \<Rightarrow> nat \<Rightarrow> raw_extrinsic" where
  "ex_raw call isSigned len =
     \<lparr> re_method = call, re_nonce = 4, re_signature = [1, 1], re_signer = ''alice'',
       re_isSigned = isSigned, re_tip = 0, re_toU8a = [4, 2], re_encodedLength = len,
       re_documentation = [] \<rparr>"

definition ex_hash :: hash where "ex_hash = replicate 32 170"
definition ex_parentHash :: hash where "ex_parentHash = replicate 32 169"
definition ex_grandparentHash :: hash where "ex_grandparentHash = replicate 32 168"
definition ex_zeroHash :: hash where "ex_zeroHash = replicate 32 0"

definition ex_header :: "nat \<Rightarrow> hash \<Rightarrow> header" where
  "ex_header n parent =
     \<lparr> h_parentHash = parent, h_number = n, h_stateRoot = replicate 32 1,
       h_extrinsicsRoot = replicate 32 2,
       h_digest = [\<lparr> dl_type = PreRuntime, dl_index = 6, dl_value = (''BABE'', [1]) \<rparr>] \<rparr>"

definition ex_block :: "nat \<Rightarrow> hash \<Rightarrow> block" where
  "ex_block n parent =
     \<lparr> b_header = ex_header n parent,
       b_extrinsics = [ex_raw ex_timestamp False 11, ex_raw ex_transfer True 143,
                       ex_raw ex_badMulti True 152],
       b_registry = ex_registry \<rparr>"

text \<open>The same block with a digest item whose payload the engine cannot decode.\<close>

definition ex_undecodableAuthor :: "block \<Rightarrow> block" where
  "ex_undecodableAuthor b =
     b\<lparr> b_header := (b_header b)
          \<lparr> h_digest := [\<lparr> dl_type = PreRuntime, dl_index = 6, dl_value = (''BABE'', []) \<rparr>] \<rparr> \<rparr>"

definition ex_system :: system_consts where
  "ex_system = \<lparr> sys_extrinsicBaseWeight = Some 125000000, sys_blockWeights = None \<rparr>"

definition ex_deps :: deps where
  "ex_deps =
     \<lparr> sanitizeDocs = concat,
       isPaysFee = (\<lambda>j. json_get j ''paysFee'' \<noteq> None),
       isFrameMethod = (\<lambda>m. True),
       blake2AsU8a = (\<lambda>bs. bs),
       expandMetadata = (\<lambda>m. Some ex_system),
       from_params_supported = (\<lambda>p. True),
       calc_fee_wasm = (\<lambda>p weight len. if len = 152 then Inl (Error ''unreachable'')
                                        else Inr ''153000014''),
       engine_extractAuthor = (\<lambda>engine data validators.
          if data = [] then Inl (Error ''Unable to decode the pre-digest'')
          else Inr (case validators of [] \<Rightarrow> None | v # _ \<Rightarrow> Some v)) \<rparr>"

definition ex_api :: "block \<Rightarrow> event_record list \<Rightarrow> api" where
  "ex_api block evs =
     \<lparr> rpc_chain_getBlock = (\<lambda>h. Inr block),
       rpc_chain_getHeader = (\<lambda>h. Inr (ex_header 9 ex_grandparentHash)),
       rpc_state_getRuntimeVersion = (\<lambda>h. Inr \<lparr> rv_specName = ''stafi'',
          rv_specVersion = (if h = ex_grandparentHash then 1 else 2) \<rparr>),
       rpc_state_getMetadata = (\<lambda>h. Inr [109, 101, 116, 97]),
       query_system_events_at = (\<lambda>h. Inr evs),
       query_session_validators_at = Some (\<lambda>h. Inr [''alice'', ''bob'']),
       query_transactionPayment_nextFeeMultiplier_at = Some (\<lambda>h. Inr 1000000000000000000),
       consts_transactionPayment = Some
         \<lparr> tp_transactionByteFee = Some 10000000,
           tp_weightToFee = Some [\<lparr> wc_coeffInteger = 8, wc_coeffFrac = 0, wc_degree = 1,
                                    wc_negative = False \<rparr>] \<rparr>,
       consts_system = ex_system,
       api_runtimeVersion = \<lparr> rv_specName = ''stafi'', rv_specVersion = 2 \<rparr>,
       createType_RuntimeDispatchInfo = (\<lambda>weight cls partialFee.
          Inr (JObj [(''weight'', JNum (int weight)),
                     (''partialFee'', JStr (case partialFee of None \<Rightarrow> ''0'' | Some fee \<Rightarrow> fee))])) \<rparr>"

text \<open>The fuel of the examples: no call of the example block is nested deeper.\<close>

definition ex_fuel :: nat where
  "ex_fuel = Suc (Suc (Suc 0))"

section \<open>The call tree parser\<close>

lemma all_some_map_Some:
  "all_some (map f xs) = Some ys \<longleftrightarrow>
     length ys = length xs \<and> (\<forall>i<length xs. f (xs ! i) = Some (ys ! i))"
proof (induction xs arbitrary: ys)
  case Nil
  then show ?case by auto
next
  case (Cons x xs)
  show ?case
  proof (cases "f x")
    case None
    then show ?thesis by auto
  next
    case (Some y)
    show ?thesis
    proof (cases "all_some (map f xs)")
      case None
      with Some Cons.IH [of "tl ys"] show ?thesis
        by (cases ys) (auto simp: nth_Cons split: nat.splits)
    next
      case (Some zs)
      with \<open>f x = Some y\<close> Cons.IH [of zs] Cons.IH [of "tl ys"] show ?thesis
        by (cases ys) (auto simp: nth_Cons less_Suc_eq_0_disj split: nat.splits)
    qed
  qed
qed

lemma all_some_map_total:
  "(\<And>x. x \<in> set xs \<Longrightarrow> \<exists>y. f x = Some y) \<Longrightarrow> \<exists>ys. all_some (map f xs) = Some ys"
proof (induction xs)
  case Nil
  then show ?case by simp
next
  case (Cons x xs)
  then obtain y where "f x = Some y" by force
  moreover from Cons obtain ys where "all_some (map f xs) = Some ys" by force
  ultimately show ?case by simp
qed

lemma all_some_map_None_iff:
  "all_some (map f xs) = None \<longleftrightarrow> (\<exists>x\<in>set xs. f x = None)"
proof (induction xs)
  case Nil
  then show ?case by simp
next
  case (Cons x xs)
  show ?case
  proof (cases "f x")
    case None
    then show ?thesis by simp
  next
    case (Some y)
    with Cons show ?thesis by (cases "all_some (map f xs)") simp_all
  qed
qed

lemma arg_weight_le_call_weight:
  "(p, a) \<in> set (gc_args c) \<Longrightarrow> arg_weight a < call_weight c"
proof (cases c)
  case (GenericCall s m as)
  assume "(p, a) \<in> set (gc_args c)"
  with GenericCall have "(p, a) \<in> set as" by simp
  then have "arg_weight a \<le> sum_list (map (\<lambda>(p, a). arg_weight a) as)"
    using member_le_sum_list [of "arg_weight a" "map (\<lambda>(p, a). arg_weight a) as"] by force
  with GenericCall show ?thesis by simp
qed

lemma elem_weight_lt_array_weight:
  "x \<in> set xs \<Longrightarrow> arg_weight x < arg_weight (CArray xs)"
  using member_le_sum_list [of "arg_weight x" "map arg_weight xs"] by force

lemma parseGenericCall_args:
  assumes "parseGenericCall registry (Suc fuel) c = Some sc"
  shows "length (sc_args sc) = length (gc_args c)"
    and "i < length (gc_args c) \<Longrightarrow>
           map_option (Pair (fst (gc_args c ! i)))
             (parseArgument registry (parseGenericCall registry fuel) (fst (gc_args c ! i)) (snd (gc_args c ! i)))
           = Some (sc_args sc ! i)"
proof -
  from assms obtain ys where ys: "all_some (map (\<lambda>(paramName, argument). map_option (Pair paramName)
            (parseArgument registry (parseGenericCall registry fuel) paramName argument))
          (gc_args c)) = Some ys" and sc: "sc = SanitizedCall (gc_section c) (gc_method c) ys"
    by auto
  from ys [unfolded all_some_map_Some] sc show "length (sc_args sc) = length (gc_args c)" by simp
  assume "i < length (gc_args c)"
  with ys [unfolded all_some_map_Some] sc show "map_option (Pair (fst (gc_args c ! i)))
             (parseArgument registry (parseGenericCall registry fuel) (fst (gc_args c ! i)) (snd (gc_args c ! i)))
           = Some (sc_args sc ! i)"
    by (auto simp: case_prod_beta)
qed

subsection \<open>When the parse of a call returns\<close>

lemma calls_of_array:
  "c \<in> set (concat (map (\<lambda>x. case x of CCall c \<Rightarrow> [c] | _ \<Rightarrow> []) xs)) \<longleftrightarrow> CCall c \<in> set xs"
proof (induction xs)
  case Nil
  then show ?case by simp
next
  case (Cons x xs)
  then show ?case by (cases x) auto
qed

lemma parseArrayGenericCalls_None_iff:
  "parseArrayGenericCalls rec xs = None
     \<longleftrightarrow> (\<exists>c\<in>set (concat (map (\<lambda>x. case x of CCall c \<Rightarrow> [c] | _ \<Rightarrow> []) xs)). rec c = None)"
proof -
  have elem: "(case x of CCall c \<Rightarrow> map_option SCall (rec c) | _ \<Rightarrow> Some (SCodec x)) = None
          \<longleftrightarrow> (\<exists>c. x = CCall c \<and> rec c = None)" for x
    by (cases x) simp_all
  have "parseArrayGenericCalls rec xs = None
          \<longleftrightarrow> (\<exists>x\<in>set xs. \<exists>c. x = CCall c \<and> rec c = None)"
    by (simp only: parseArrayGenericCalls_def all_some_map_None_iff elem)
  also have "\<dots> \<longleftrightarrow> (\<exists>c. CCall c \<in> set xs \<and> rec c = None)"
    by blast
  also have "\<dots> \<longleftrightarrow> (\<exists>c\<in>set (concat (map (\<lambda>x. case x of CCall c \<Rightarrow> [c] | _ \<Rightarrow> []) xs)).
                         rec c = None)"
    by (simp only: calls_of_array Bex_def)
  finally show ?thesis .
qed

lemma parseArgument_CValue:
  "parseArgument registry rec p (CValue t bs) =
     (if p = ''call'' \<and> t = ''Bytes'' then
        (case registry bs of
           Some call \<Rightarrow> map_option SCall (rec call)
         | None \<Rightarrow> Some (SCodec (CValue t bs)))
      else Some (SCodec (CValue t bs)))"
  by (simp add: parseArgument_def)

lemma nestedCallsOfArgument_CValue:
  "nestedCallsOfArgument registry p (CValue t bs) =
     (if p = ''call'' \<and> t = ''Bytes'' then
        (case registry bs of Some call \<Rightarrow> [call] | None \<Rightarrow> [])
      else [])"
  by (simp add: nestedCallsOfArgument_def)

lemma parseArgument_undecodable:
  "registry bs = None \<Longrightarrow>
     parseArgument registry rec p (CValue t bs) = Some (SCodec (CValue t bs))"
  by (auto simp: parseArgument_CValue)

lemma nestedCallsOfArgument_undecodable:
  "registry bs = None \<Longrightarrow> nestedCallsOfArgument registry p (CValue t bs) = []"
  by (auto simp: nestedCallsOfArgument_CValue)

lemma parseArgument_other:
  "\<not> (p = ''call'' \<and> t = ''Bytes'') \<Longrightarrow>
     parseArgument registry rec p (CValue t bs) = Some (SCodec (CValue t bs))"
  by (auto simp: parseArgument_CValue)

lemma nestedCallsOfArgument_other:
  "\<not> (p = ''call'' \<and> t = ''Bytes'') \<Longrightarrow> nestedCallsOfArgument registry p (CValue t bs) = []"
  by (auto simp: nestedCallsOfArgument_CValue)

lemma parseArgument_decoded:
  "registry bs = Some c \<Longrightarrow>
     parseArgument registry rec ''call'' (CValue ''Bytes'' bs) = map_option SCall (rec c)"
  by (auto simp: parseArgument_CValue)

lemma nestedCallsOfArgument_decoded:
  "registry bs = Some c \<Longrightarrow> nestedCallsOfArgument registry ''call'' (CValue ''Bytes'' bs) = [c]"
  by (auto simp: nestedCallsOfArgument_CValue)

lemma parseArgument_CValue_None_iff:
  "parseArgument registry rec p (CValue t bs) = None
     \<longleftrightarrow> (\<exists>c\<in>set (nestedCallsOfArgument registry p (CValue t bs)). rec c = None)"
proof (cases "p = ''call'' \<and> t = ''Bytes''")
  case False
  from parseArgument_other [OF False] nestedCallsOfArgument_other [OF False]
  show ?thesis by simp
next
  case True
  show ?thesis
  proof (cases "registry bs")
    case None
    from parseArgument_undecodable [where registry = registry and bs = bs, OF None]
      nestedCallsOfArgument_undecodable [where registry = registry and bs = bs, OF None]
    show ?thesis by simp
  next
    case (Some c)
    from parseArgument_decoded [where registry = registry and bs = bs, OF Some]
      nestedCallsOfArgument_decoded [where registry = registry and bs = bs, OF Some] True
    show ?thesis by simp
  qed
qed

lemma parseArgument_None_iff:
  "parseArgument registry rec p a = None
     \<longleftrightarrow> (\<exists>c\<in>set (nestedCallsOfArgument registry p a). rec c = None)"
proof (cases a)
  case (CArray xs)
  show ?thesis
    unfolding CArray
    by (simp add: parseArgument_def nestedCallsOfArgument_def parseArrayGenericCalls_None_iff)
next
  case (CCall c)
  show ?thesis
    unfolding CCall by (simp add: parseArgument_def nestedCallsOfArgument_def)
next
  case (CValue t bs)
  show ?thesis
    unfolding CValue by (rule parseArgument_CValue_None_iff)
qed

lemma parseGenericCall_None_iff:
  "parseGenericCall registry (Suc fuel) c = None
     \<longleftrightarrow> (\<exists>c'\<in>set (nestedCalls registry c). parseGenericCall registry fuel c' = None)"
proof -
  have "parseGenericCall registry (Suc fuel) c = None
     \<longleftrightarrow> (\<exists>x\<in>set (gc_args c). parseArgument registry (parseGenericCall registry fuel) (fst x) (snd x) = None)"
    by (simp add: all_some_map_None_iff case_prod_beta)
  also have "\<dots> \<longleftrightarrow> (\<exists>c'\<in>set (nestedCalls registry c). parseGenericCall registry fuel c' = None)"
    unfolding parseArgument_None_iff nestedCalls_def by (auto simp: case_prod_beta)
  finally show ?thesis .
qed

text \<open>
  A call that the parser recurses into is a smaller call inside the call, with
  no other opaque calls than the call has, or is decoded from an opaque call
  of the call.
\<close>

lemma arg_payloads_subset:
  assumes "(p, a) \<in> set (gc_args c)"
  shows "set (arg_payloads p a) \<subseteq> set (call_payloads c)"
proof (cases c)
  case (GenericCall s m as)
  with assms have pa: "(p, a) \<in> set as" by simp
  show ?thesis
  proof
    fix b assume "b \<in> set (arg_payloads p a)"
    with pa have "\<exists>x\<in>set as. b \<in> set (case x of (p, a) \<Rightarrow> arg_payloads p a)"
      by (intro bexI [of _ "(p, a)"]) simp_all
    then show "b \<in> set (call_payloads c)" by (simp add: GenericCall)
  qed
qed

lemma elem_payloads_subset:
  assumes "x \<in> set xs"
  shows "set (arg_payloads [] x) \<subseteq> set (arg_payloads p (CArray xs))"
proof
  fix b assume "b \<in> set (arg_payloads [] x)"
  with assms have "\<exists>y\<in>set xs. b \<in> set (arg_payloads [] y)" by (intro bexI [of _ x])
  then show "b \<in> set (arg_payloads p (CArray xs))" by simp
qed

lemma nestedCallsOfArgument_CValue_cases:
  assumes "c' \<in> set (nestedCallsOfArgument registry p (CValue t bs))"
  shows "\<exists>b\<in>set (arg_payloads p (CValue t bs)). registry b = Some c'"
proof (cases "p = ''call'' \<and> t = ''Bytes''")
  case False
  from assms nestedCallsOfArgument_other [OF False, of registry bs] show ?thesis by simp
next
  case True
  show ?thesis
  proof (cases "registry bs")
    case None
    from assms nestedCallsOfArgument_undecodable [where registry = registry and bs = bs, OF None]
    show ?thesis by simp
  next
    case (Some c)
    from assms True
      nestedCallsOfArgument_decoded [where registry = registry and bs = bs, OF Some]
    have "c' = c" by simp
    with Some True show ?thesis by simp
  qed
qed

lemma nestedCallsOfArgument_cases:
  assumes "c' \<in> set (nestedCallsOfArgument registry p a)"
  shows "(call_weight c' \<le> arg_weight a \<and> set (call_payloads c') \<subseteq> set (arg_payloads p a))
         \<or> (\<exists>b\<in>set (arg_payloads p a). registry b = Some c')"
proof (cases a)
  case (CArray xs)
  from assms have el: "CCall c' \<in> set xs"
    unfolding CArray by (simp add: nestedCallsOfArgument_def calls_of_array)
  from elem_weight_lt_array_weight [OF el] have "call_weight c' \<le> arg_weight (CArray xs)" by simp
  moreover from elem_payloads_subset [OF el, of p]
  have "set (call_payloads c') \<subseteq> set (arg_payloads p (CArray xs))" by simp
  ultimately show ?thesis unfolding CArray by blast
next
  case (CCall c)
  from assms have "c' = c" unfolding CCall by (simp add: nestedCallsOfArgument_def)
  then show ?thesis unfolding CCall by simp
next
  case (CValue t bs)
  from nestedCallsOfArgument_CValue_cases [OF assms [unfolded CValue]]
  show ?thesis unfolding CValue by blast
qed

lemma nestedCalls_member:
  assumes "c' \<in> set (nestedCalls registry c)"
  shows "\<exists>p a. (p, a) \<in> set (gc_args c) \<and> c' \<in> set (nestedCallsOfArgument registry p a)"
proof -
  from assms obtain x where x: "x \<in> set (gc_args c)"
    and c': "c' \<in> set (case x of (p, a) \<Rightarrow> nestedCallsOfArgument registry p a)"
    unfolding nestedCalls_def by auto
  obtain p a where "x = (p, a)" by (cases x)
  with x c' show ?thesis by auto
qed

lemma nestedCalls_cases:
  assumes "c' \<in> set (nestedCalls registry c)"
  shows "(call_weight c' < call_weight c \<and> set (call_payloads c') \<subseteq> set (call_payloads c))
         \<or> (\<exists>b\<in>set (call_payloads c). registry b = Some c')"
proof -
  from nestedCalls_member [OF assms] obtain p a where pa: "(p, a) \<in> set (gc_args c)"
    and c': "c' \<in> set (nestedCallsOfArgument registry p a)"
    by blast
  note w = arg_weight_le_call_weight [OF pa] and sub = arg_payloads_subset [OF pa]
  from nestedCallsOfArgument_cases [OF c'] show ?thesis
  proof
    assume "call_weight c' \<le> arg_weight a \<and> set (call_payloads c') \<subseteq> set (arg_payloads p a)"
    with w sub have "call_weight c' < call_weight c \<and> set (call_payloads c') \<subseteq> set (call_payloads c)"
      by auto
    then show ?thesis ..
  next
    assume "\<exists>b\<in>set (arg_payloads p a). registry b = Some c'"
    then obtain b where "b \<in> set (arg_payloads p a)" and "registry b = Some c'" by blast
    with sub have "b \<in> set (call_payloads c) \<and> registry b = Some c'" by blast
    then show ?thesis by blast
  qed
qed

lemma eventually_all:
  assumes "\<And>x. x \<in> set xs \<Longrightarrow> \<exists>n. \<forall>m\<ge>n. P x (m::nat)"
  shows "\<exists>n. \<forall>m\<ge>n. \<forall>x\<in>set xs. P x m"
  using assms
proof (induction xs)
  case Nil
  then show ?case by simp
next
  case (Cons x xs)
  then obtain n1 where n1: "\<forall>m\<ge>n1. P x m" by force
  from Cons obtain n2 where n2: "\<forall>m\<ge>n2. \<forall>x\<in>set xs. P x m" by force
  from n1 n2 have "\<forall>m\<ge>max n1 n2. \<forall>y\<in>set (x # xs). P y m" by simp
  then show ?case ..
qed

text \<open>
  Under a registry whose decoded calls have shorter opaque calls, the parse of
  every call returns with enough fuel.
\<close>

lemma parseGenericCall_returns_bounded:
  assumes reg: "shrinking_registry registry"
  shows "(\<forall>b\<in>set (call_payloads c). length b < n)
           \<Longrightarrow> \<exists>k. \<forall>fuel\<ge>k. parseGenericCall registry fuel c \<noteq> None"
proof (induction n arbitrary: c rule: less_induct)
  case (less n)
  note outer = less.IH
  from less.prems show ?case
  proof (induction "call_weight c" arbitrary: c rule: less_induct)
    case inner: less
    have "\<exists>k. \<forall>fuel\<ge>k. parseGenericCall registry fuel c' \<noteq> None"
      if c': "c' \<in> set (nestedCalls registry c)" for c'
      using nestedCalls_cases [OF c']
    proof
      assume "call_weight c' < call_weight c \<and> set (call_payloads c') \<subseteq> set (call_payloads c)"
      with inner.prems inner.hyps [of c'] show ?thesis by blast
    next
      assume "\<exists>b\<in>set (call_payloads c). registry b = Some c'"
      then obtain b where b: "b \<in> set (call_payloads c)" and dec: "registry b = Some c'" by blast
      from reg have "\<forall>bs c. registry bs = Some c
                        \<longrightarrow> (\<forall>b'\<in>set (call_payloads c). length b' < length bs)"
        unfolding shrinking_registry_def .
      with dec have "\<forall>b'\<in>set (call_payloads c'). length b' < length b"
        by blast
      moreover from inner.prems b have "length b < n" by blast
      ultimately show ?thesis using outer [of "length b" c'] by blast
    qed
    from eventually_all [of "nestedCalls registry c"
        "\<lambda>c' fuel. parseGenericCall registry fuel c' \<noteq> None", OF this]
    obtain k where k: "\<forall>fuel\<ge>k. \<forall>c'\<in>set (nestedCalls registry c).
                          parseGenericCall registry fuel c' \<noteq> None"
      by blast
    have "parseGenericCall registry fuel c \<noteq> None" if "fuel \<ge> Suc k" for fuel
    proof -
      from that obtain j where j: "fuel = Suc j" and jk: "k \<le> j" by (cases fuel) auto
      from k jk have "\<forall>c'\<in>set (nestedCalls registry c). parseGenericCall registry j c' \<noteq> None"
        by blast
      then show ?thesis unfolding j parseGenericCall_None_iff by blast
    qed
    then show ?case by blast
  qed
qed

lemma parseGenericCall_returns:
  assumes "shrinking_registry registry"
  shows "\<exists>k. \<forall>fuel\<ge>k. parseGenericCall registry fuel c \<noteq> None"
proof (rule parseGenericCall_returns_bounded [OF assms])
  show "\<forall>b\<in>set (call_payloads c). length b < Suc (sum_list (map length (call_payloads c)))"
    using member_le_sum_list [of _ "map length (call_payloads c)"] by (auto simp: less_Suc_eq_le)
qed

text \<open>The example registry is one of them.\<close>

lemma ex_registry_shrinking: "shrinking_registry ex_registry"
  by (simp add: shrinking_registry_def ex_registry_def ex_transfer_def)

subsection \<open>Opaque calls\<close>

text \<open>
  Claim C8.  For every registry and every call.  The parse of the call returns
  exactly when the parse of each call that it recurses into returns: the
  nested calls, and the calls that the registry decodes from the arguments
  named \<^verbatim>\<open>call\<close> of raw type \<^verbatim>\<open>Bytes\<close>.  When it returns, it has an argument
  for each argument of the call, and in the place of an argument named
  \<^verbatim>\<open>call\<close> of raw type \<^verbatim>\<open>Bytes\<close> it has the parse of the call that the
  registry decodes from the bytes or, when the decoding throws, the argument
  as it was.  An argument whose decoding throws adds no call to recurse into
  and its own parse returns whatever the recursion does, so it never makes the
  parse of the call fail.
\<close>

theorem opaque_call_decoded_or_passed_through:
  "((\<exists>sc. parseGenericCall registry (Suc fuel) genericCall = Some sc)
      \<longleftrightarrow> (\<forall>c\<in>set (nestedCalls registry genericCall).
             \<exists>sc'. parseGenericCall registry fuel c = Some sc'))
   \<and> (\<forall>sc. parseGenericCall registry (Suc fuel) genericCall = Some sc \<longrightarrow>
          length (sc_args sc) = length (gc_args genericCall)
          \<and> (\<forall>i<length (gc_args genericCall). \<forall>bytes.
                gc_args genericCall ! i = (''call'', CValue ''Bytes'' bytes) \<longrightarrow>
                (case registry bytes of
                   None \<Rightarrow> sc_args sc ! i = (''call'', SCodec (CValue ''Bytes'' bytes))
                 | Some call \<Rightarrow>
                     (\<exists>parsed. parseGenericCall registry fuel call = Some parsed
                        \<and> sc_args sc ! i = (''call'', SCall parsed)))))
   \<and> (\<forall>bytes. registry bytes = None \<longrightarrow>
          nestedCallsOfArgument registry ''call'' (CValue ''Bytes'' bytes) = []
          \<and> (\<forall>rec. parseArgument registry rec ''call'' (CValue ''Bytes'' bytes)
                       = Some (SCodec (CValue ''Bytes'' bytes))))"
proof (intro conjI allI impI)
  show "(\<exists>sc. parseGenericCall registry (Suc fuel) genericCall = Some sc)
      \<longleftrightarrow> (\<forall>c\<in>set (nestedCalls registry genericCall).
             \<exists>sc'. parseGenericCall registry fuel c = Some sc')"
    using parseGenericCall_None_iff [of registry fuel genericCall]
    by (metis not_Some_eq)
next
  fix sc assume sc: "parseGenericCall registry (Suc fuel) genericCall = Some sc"
  from parseGenericCall_args(1) [OF sc]
  show "length (sc_args sc) = length (gc_args genericCall)" .
  fix i bytes
  assume i: "i < length (gc_args genericCall)"
    and arg: "gc_args genericCall ! i = (''call'', CValue ''Bytes'' bytes)"
  from parseGenericCall_args(2) [OF sc i] arg
  have parsed: "map_option (Pair ''call'')
                  (parseArgument registry (parseGenericCall registry fuel) ''call''
                     (CValue ''Bytes'' bytes)) = Some (sc_args sc ! i)"
    by simp
  show "case registry bytes of
          None \<Rightarrow> sc_args sc ! i = (''call'', SCodec (CValue ''Bytes'' bytes))
        | Some call \<Rightarrow>
            (\<exists>parsed. parseGenericCall registry fuel call = Some parsed
               \<and> sc_args sc ! i = (''call'', SCall parsed))"
  proof (cases "registry bytes")
    case None
    from parsed
      parseArgument_undecodable [where registry = registry and bs = bytes, OF None]
    show ?thesis by (simp add: None)
  next
    case (Some call)
    from parsed
      parseArgument_decoded [where registry = registry and bs = bytes, OF Some]
    show ?thesis by (auto simp: Some)
  qed
next
  fix bytes assume none: "registry bytes = None"
  from nestedCallsOfArgument_undecodable [where registry = registry and bs = bytes, OF none]
  show "nestedCallsOfArgument registry ''call'' (CValue ''Bytes'' bytes) = []" .
  fix rec
  from parseArgument_undecodable [where registry = registry and bs = bytes, OF none]
  show "parseArgument registry rec ''call'' (CValue ''Bytes'' bytes)
          = Some (SCodec (CValue ''Bytes'' bytes))" .
qed

text \<open>
  A \<^verbatim>\<open>multisig.asMulti\<close> whose opaque call does not decode keeps its bytes, and
  one whose opaque call decodes to a \<^verbatim>\<open>balances.transfer\<close> carries the parsed
  transfer.
\<close>

theorem opaque_call_decoded_or_passed_through_witness:
  "gc_args ex_badMulti ! 1 = (''call'', CValue ''Bytes'' [255])
   \<and> ex_registry [255] = None
   \<and> nestedCalls ex_registry ex_badMulti = []
   \<and> parseGenericCall ex_registry (Suc 0) ex_badMulti =
       Some (SanitizedCall ''multisig'' ''asMulti''
         [(''threshold'', SCodec (CValue ''u16'' [2, 0])),
          (''call'', SCodec (CValue ''Bytes'' [255]))])
   \<and> gc_args ex_asMulti ! 1 = (''call'', CValue ''Bytes'' [5, 0, 1, 2, 7])
   \<and> ex_registry [5, 0, 1, 2, 7] = Some ex_transfer
   \<and> nestedCalls ex_registry ex_asMulti = [ex_transfer]
   \<and> parseGenericCall ex_registry (Suc (Suc 0)) ex_asMulti =
       Some (SanitizedCall ''multisig'' ''asMulti''
         [(''threshold'', SCodec (CValue ''u16'' [2, 0])),
          (''call'', SCall (SanitizedCall ''balances'' ''transfer''
             [(''dest'', SCodec (CValue ''AccountId'' [1, 2])),
              (''value'', SCodec (CValue ''Compact<Balance>'' [7]))]))])"
  using opaque_call_decoded_or_passed_through [of ex_registry 0 ex_badMulti]
    opaque_call_decoded_or_passed_through [of ex_registry "Suc 0" ex_asMulti]
  by (simp add: ex_badMulti_def ex_asMulti_def ex_registry_def ex_transfer_def
        parseArgument_def parseArrayGenericCalls_def nestedCalls_def nestedCallsOfArgument_def)

section \<open>Properties of the event attribution, the fee loop and the assembly\<close>

subsection \<open>attributeEvent\<close>

lemma attributeEvent_signature [simp]:
  "x_signature (attributeEvent d docs ev x) = x_signature x"
  by (simp add: attributeEvent_def setPaysFee_def setSuccess_def Let_def split: option.splits)

lemma attributeEvent_info [simp]:
  "x_info (attributeEvent d docs ev x) = x_info x"
  by (simp add: attributeEvent_def setPaysFee_def setSuccess_def Let_def split: option.splits)

lemma attributeEvent_success:
  "x_success (attributeEvent d docs ev x) =
     (if ev_method ev = ''ExtrinsicSuccess'' then SuccessBool True else x_success x)"
  by (simp add: attributeEvent_def setPaysFee_def setSuccess_def Let_def split: option.splits)

lemma attributeEvent_events:
  "x_events (attributeEvent d docs ev x) = x_events x @ [sanitizeEvent d docs ev]"
  by (simp add: attributeEvent_def setPaysFee_def setSuccess_def Let_def split: option.splits)

lemma attributeEvent_paysFee_unsigned:
  "x_signature x = None \<Longrightarrow> x_paysFee (attributeEvent d docs ev x) = x_paysFee x"
  by (simp add: attributeEvent_def setPaysFee_def setSuccess_def Let_def)

subsection \<open>sanitizeEventsStep and sanitizeEventsLoop\<close>

lemma sanitizeEventsStep_Inr_iff:
  "(\<exists>st'. sanitizeEventsStep d h docs ev st = Inr st') \<longleftrightarrow>
     (\<forall>i. ev_phase ev = ApplyExtrinsic i \<longrightarrow> i < length (at_extrinsics st))"
  by (auto simp: sanitizeEventsStep_def split: phase.splits)

lemma sanitizeEventsStep_Inl:
  "sanitizeEventsStep d h docs ev st = Inl e \<Longrightarrow>
     \<exists>i. ev_phase ev = ApplyExtrinsic i \<and> length (at_extrinsics st) \<le> i
        \<and> e = Error (''Missing extrinsic '' @ dec_str i @ '' in block '' @ u8aToHex h)"
  by (auto simp: sanitizeEventsStep_def split: phase.splits if_splits)

lemma sanitizeEventsStep_length:
  "sanitizeEventsStep d h docs ev st = Inr st' \<Longrightarrow>
     length (at_extrinsics st') = length (at_extrinsics st)"
  by (auto simp: sanitizeEventsStep_def split: phase.splits if_splits)

lemma sanitizeEventsStep_nth:
  assumes "sanitizeEventsStep d h docs ev st = Inr st'" and "i < length (at_extrinsics st)"
  shows "at_extrinsics st' ! i =
           (if ev_phase ev = ApplyExtrinsic i then attributeEvent d docs ev (at_extrinsics st ! i)
            else at_extrinsics st ! i)"
  using assms by (auto simp: sanitizeEventsStep_def split: phase.splits if_splits)

lemma sanitizeEventsLoop_length:
  "sanitizeEventsLoop d h docs evs st = Inr st' \<Longrightarrow>
     length (at_extrinsics st') = length (at_extrinsics st)"
proof (induction evs arbitrary: st)
  case Nil
  then show ?case by simp
next
  case (Cons ev evs)
  then show ?case
    by (auto split: sum.splits dest: sanitizeEventsStep_length)
qed

lemma sanitizeEventsLoop_Inr_iff:
  "(\<exists>st'. sanitizeEventsLoop d h docs evs st = Inr st') \<longleftrightarrow>
     (\<forall>ev\<in>set evs. \<forall>i. ev_phase ev = ApplyExtrinsic i \<longrightarrow> i < length (at_extrinsics st))"
proof (induction evs arbitrary: st)
  case Nil
  then show ?case by simp
next
  case (Cons ev evs)
  show ?case
  proof (cases "sanitizeEventsStep d h docs ev st")
    case (Inl e)
    with sanitizeEventsStep_Inr_iff [of d h docs ev st] show ?thesis by auto
  next
    case (Inr st1)
    with sanitizeEventsStep_Inr_iff [of d h docs ev st] sanitizeEventsStep_length [OF Inr]
      Cons.IH [of st1]
    show ?thesis by auto
  qed
qed

lemma sanitizeEventsLoop_Inl:
  "sanitizeEventsLoop d h docs evs st = Inl e \<Longrightarrow>
     \<exists>ev\<in>set evs. \<exists>i. ev_phase ev = ApplyExtrinsic i \<and> length (at_extrinsics st) \<le> i
        \<and> e = Error (''Missing extrinsic '' @ dec_str i @ '' in block '' @ u8aToHex h)"
proof (induction evs arbitrary: st)
  case Nil
  then show ?case by simp
next
  case (Cons ev evs)
  show ?case
  proof (cases "sanitizeEventsStep d h docs ev st")
    case (Inl e')
    with Cons.prems sanitizeEventsStep_Inl [OF Inl] show ?thesis by auto
  next
    case (Inr st1)
    with Cons.prems have "sanitizeEventsLoop d h docs evs st1 = Inl e" by simp
    from Cons.IH [OF this] sanitizeEventsStep_length [OF Inr] show ?thesis by auto
  qed
qed

text \<open>What the loop leaves in each field of the extrinsic at index i.\<close>

lemma sanitizeEventsLoop_nth:
  assumes "sanitizeEventsLoop d h docs evs st = Inr st'" and "i < length (at_extrinsics st)"
  shows "x_signature (at_extrinsics st' ! i) = x_signature (at_extrinsics st ! i)"
    and "x_info (at_extrinsics st' ! i) = x_info (at_extrinsics st ! i)"
    and "x_success (at_extrinsics st' ! i) =
           (if \<exists>ev\<in>set evs. ev_phase ev = ApplyExtrinsic i \<and> ev_method ev = ''ExtrinsicSuccess''
            then SuccessBool True else x_success (at_extrinsics st ! i))"
    and "x_events (at_extrinsics st' ! i) =
           x_events (at_extrinsics st ! i)
           @ map (sanitizeEvent d docs) (filter (\<lambda>ev. ev_phase ev = ApplyExtrinsic i) evs)"
    and "x_signature (at_extrinsics st ! i) = None \<Longrightarrow>
           x_paysFee (at_extrinsics st' ! i) = x_paysFee (at_extrinsics st ! i)"
  using assms
proof (induction evs arbitrary: st)
  case Nil
  {
    case 1 then show ?case by simp
  next
    case 2 then show ?case by simp
  next
    case 3 then show ?case by simp
  next
    case 4 then show ?case by simp
  next
    case 5 then show ?case by simp
  }
next
  case (Cons ev evs)
  {
    case 1
    then obtain st1 where s: "sanitizeEventsStep d h docs ev st = Inr st1"
      and l: "sanitizeEventsLoop d h docs evs st1 = Inr st'"
      by (auto split: sum.splits)
    from sanitizeEventsStep_length [OF s] 1 have i: "i < length (at_extrinsics st1)" by simp
    from Cons.IH(1) [OF l i] sanitizeEventsStep_nth [OF s "1"(2)] show ?case by simp
  next
    case 2
    then obtain st1 where s: "sanitizeEventsStep d h docs ev st = Inr st1"
      and l: "sanitizeEventsLoop d h docs evs st1 = Inr st'"
      by (auto split: sum.splits)
    from sanitizeEventsStep_length [OF s] 2 have i: "i < length (at_extrinsics st1)" by simp
    from Cons.IH(2) [OF l i] sanitizeEventsStep_nth [OF s "2"(2)] show ?case by simp
  next
    case 3
    then obtain st1 where s: "sanitizeEventsStep d h docs ev st = Inr st1"
      and l: "sanitizeEventsLoop d h docs evs st1 = Inr st'"
      by (auto split: sum.splits)
    from sanitizeEventsStep_length [OF s] 3 have i: "i < length (at_extrinsics st1)" by simp
    from Cons.IH(3) [OF l i] sanitizeEventsStep_nth [OF s "3"(2)] show ?case
      by (auto simp: attributeEvent_success)
  next
    case 4
    then obtain st1 where s: "sanitizeEventsStep d h docs ev st = Inr st1"
      and l: "sanitizeEventsLoop d h docs evs st1 = Inr st'"
      by (auto split: sum.splits)
    from sanitizeEventsStep_length [OF s] 4 have i: "i < length (at_extrinsics st1)" by simp
    from Cons.IH(4) [OF l i] sanitizeEventsStep_nth [OF s "4"(2)] show ?case
      by (auto simp: attributeEvent_events)
  next
    case 5
    then obtain st1 where s: "sanitizeEventsStep d h docs ev st = Inr st1"
      and l: "sanitizeEventsLoop d h docs evs st1 = Inr st'"
      by (auto split: sum.splits)
    from sanitizeEventsStep_length [OF s] 5 have i: "i < length (at_extrinsics st1)" by simp
    from sanitizeEventsStep_nth [OF s "5"(3)] 5(1)
    have "x_signature (at_extrinsics st1 ! i) = None"
      and "x_paysFee (at_extrinsics st1 ! i) = x_paysFee (at_extrinsics st ! i)"
      by (auto simp: attributeEvent_paysFee_unsigned)
    with Cons.IH(5) [OF _ l i] show ?case by simp
  }
qed

subsection \<open>extractExtrinsics\<close>

lemma extractExtrinsics_nth:
  assumes "extractExtrinsics d fuel block events xdocs = Some xs"
  shows "length xs = length (b_extrinsics block)"
    and "i < length (b_extrinsics block) \<Longrightarrow>
           \<exists>call. xs ! i = extractExtrinsic d
             (case events of EventsStr s \<Rightarrow> SuccessStr s | Events evs \<Rightarrow> SuccessBool False)
             xdocs (b_extrinsics block ! i) call"
proof -
  let ?s = "case events of EventsStr s \<Rightarrow> SuccessStr s | Events evs \<Rightarrow> SuccessBool False"
  let ?f = "\<lambda>extrinsic. map_option (extractExtrinsic d ?s xdocs extrinsic)
              (parseGenericCall (b_registry block) fuel (re_method extrinsic))"
  from assms have "all_some (map ?f (b_extrinsics block)) = Some xs"
    by (simp add: extractExtrinsics_def Let_def)
  then have len: "length xs = length (b_extrinsics block)"
    and nth: "\<And>i. i < length (b_extrinsics block) \<Longrightarrow> ?f (b_extrinsics block ! i) = Some (xs ! i)"
    unfolding all_some_map_Some by blast+
  from len show "length xs = length (b_extrinsics block)" .
  assume "i < length (b_extrinsics block)"
  from nth [OF this] obtain call
    where "extractExtrinsic d ?s xdocs (b_extrinsics block ! i) call = xs ! i"
    by auto
  then have "xs ! i = extractExtrinsic d ?s xdocs (b_extrinsics block ! i) call" by simp
  then show "\<exists>call. xs ! i = extractExtrinsic d ?s xdocs (b_extrinsics block ! i) call" ..
qed

text \<open>
  extractExtrinsics returns, with enough fuel, when the opaque payloads of
  every call that the registry of the block decodes are shorter than the
  bytes it was decoded from.
\<close>

lemma extractExtrinsics_returns:
  assumes "shrinking_registry (b_registry block)"
  shows "\<exists>k. \<forall>fuel\<ge>k. \<exists>xs. extractExtrinsics d fuel block events xdocs = Some xs"
proof -
  have "\<exists>k. \<forall>fuel\<ge>k. \<forall>x\<in>set (b_extrinsics block).
          parseGenericCall (b_registry block) fuel (re_method x) \<noteq> None"
    by (rule eventually_all) (rule parseGenericCall_returns [OF assms])
  then obtain k where k: "\<forall>fuel\<ge>k. \<forall>x\<in>set (b_extrinsics block).
          parseGenericCall (b_registry block) fuel (re_method x) \<noteq> None" ..
  have "\<exists>xs. extractExtrinsics d fuel block events xdocs = Some xs" if "k \<le> fuel" for fuel
    unfolding extractExtrinsics_def Let_def
  proof (rule all_some_map_total)
    fix x assume "x \<in> set (b_extrinsics block)"
    with k that obtain sc where "parseGenericCall (b_registry block) fuel (re_method x) = Some sc"
      by blast
    then show "\<exists>y. map_option
          (extractExtrinsic d
             (case events of Events evs \<Rightarrow> SuccessBool False | EventsStr s \<Rightarrow> SuccessStr s)
             xdocs x)
          (parseGenericCall (b_registry block) fuel (re_method x)) = Some y"
      by simp
  qed
  then show ?thesis by blast
qed

lemma extractExtrinsic_fields [simp]:
  "x_info (extractExtrinsic d s xdocs raw call) = InfoEmpty"
  "x_events (extractExtrinsic d s xdocs raw call) = []"
  "x_success (extractExtrinsic d s xdocs raw call) = s"
  "x_paysFee (extractExtrinsic d s xdocs raw call) = (if re_isSigned raw then None else Some False)"
  "x_signature (extractExtrinsic d s xdocs raw call) = None \<longleftrightarrow> \<not> re_isSigned raw"
  by (simp_all add: extractExtrinsic_def)

subsection \<open>feeLoop\<close>

lemma feeLoop_Inr:
  assumes "idx + length raws \<le> length xs"
  shows "\<exists>xs'. feeLoop a d r idx raws xs = Inr xs' \<and> length xs' = length xs
           \<and> (\<forall>j<length xs. xs' ! j =
                 (if idx \<le> j \<and> j < idx + length raws
                  then feeAnnotate a d r (xs ! j) (raws ! (j - idx)) else xs ! j))"
  using assms
proof (induction raws arbitrary: idx xs)
  case Nil
  then show ?case by auto
next
  case (Cons raw raws)
  define xs1 where "xs1 = xs[idx := feeAnnotate a d r (xs ! idx) raw]"
  from Cons.prems have body: "feeLoopBody a d r idx raw xs = Inr xs1"
    by (auto simp: feeLoopBody_def feeAnnotate_def xs1_def split: option.splits)
  from Cons.prems have "Suc idx + length raws \<le> length xs1" by (simp add: xs1_def)
  from Cons.IH [OF this] obtain xs' where
    loop: "feeLoop a d r (Suc idx) raws xs1 = Inr xs'" and len: "length xs' = length xs1"
    and nth: "\<And>j. j < length xs1 \<Longrightarrow> xs' ! j =
                 (if Suc idx \<le> j \<and> j < Suc idx + length raws
                  then feeAnnotate a d r (xs1 ! j) (raws ! (j - Suc idx)) else xs1 ! j)"
    by blast
  have "xs' ! j = (if idx \<le> j \<and> j < idx + length (raw # raws)
                  then feeAnnotate a d r (xs ! j) ((raw # raws) ! (j - idx)) else xs ! j)"
    if "j < length xs" for j
  proof (cases "j = idx")
    case True
    with nth [of j] that show ?thesis by (simp add: xs1_def)
  next
    case False
    show ?thesis
    proof (cases "idx < j")
      case True
      then obtain k where k: "j = Suc (idx + k)"
        using less_iff_Suc_add by blast
      with nth [of j] that show ?thesis by (simp add: xs1_def)
    next
      case lt: False
      with False nth [of j] that show ?thesis by (simp add: xs1_def)
    qed
  qed
  with body loop len show ?case by (simp add: xs1_def)
qed

lemma feeLoop_whole:
  assumes "length raws = length xs"
  shows "\<exists>xs'. feeLoop a d r 0 raws xs = Inr xs' \<and> length xs' = length xs
           \<and> (\<forall>j<length xs. xs' ! j = feeAnnotate a d r (xs ! j) (raws ! j))"
  using feeLoop_Inr [of 0 raws xs a d r] assms by auto

lemma feeAnnotate_fields [simp]:
  "x_signature (feeAnnotate a d r x raw) = x_signature x"
  "x_paysFee (feeAnnotate a d r x raw) = x_paysFee x"
  "x_success (feeAnnotate a d r x raw) = x_success x"
  "x_events (feeAnnotate a d r x raw) = x_events x"
  by (simp_all add: feeAnnotate_def split: option.splits)

lemma feeAnnotate_not_paying:
  "x_paysFee x \<noteq> Some True \<Longrightarrow> feeAnnotate a d r x raw = x"
  by (simp add: feeAnnotate_def feeInfo_def)

subsection \<open>Requests\<close>

lemma bind_Inr_iff:
  "bind m f = (Inr y, l) \<longleftrightarrow> (\<exists>x l1 l2. m = (Inr x, l1) \<and> f x = (Inr y, l2) \<and> l = l1 @ l2)"
  by (cases m; cases "fst m") (auto simp: bind_def split: prod.splits)

lemma all2_Inr_iff:
  "all2 m1 m2 = (Inr p, l) \<longleftrightarrow>
     (\<exists>l1 l2. m1 = (Inr (fst p), l1) \<and> m2 = (Inr (snd p), l2) \<and> l = l1 @ l2)"
  by (cases m1; cases m2; cases "fst m1"; cases "fst m2"; cases p) (auto simp: all2_def)

lemma request_eq: "request r answer = (res, l) \<longleftrightarrow> answer = res \<and> l = [r]"
  by (auto simp: request_def)

lemma pure_eq: "pure x = (res, l) \<longleftrightarrow> res = Inr x \<and> l = []"
  by (auto simp: pure_def)

lemma throw_eq: "throw e = (res, l) \<longleftrightarrow> res = Inl e \<and> l = []"
  by (auto simp: throw_def)

lemma fetchEvents_eq:
  "fetchEvents a hash = (res, l) \<longleftrightarrow>
     res = Inr (case query_system_events_at a hash of
                  Inr evs \<Rightarrow> Events evs
                | Inl e \<Rightarrow> EventsStr eventsUnavailable)
     \<and> l = [EventsAt hash]"
  by (auto simp: fetchEvents_def split: sum.splits)

subsection \<open>fetchAll\<close>

lemma fetchAll_Inr:
  assumes "fetchAll a hash = (Inr (block, events, sv), l)"
  shows "rpc_chain_getBlock a hash = Inr block
    \<and> events = (case query_system_events_at a hash of
                   Inr evs \<Rightarrow> Events evs
                 | Inl e \<Rightarrow> EventsStr eventsUnavailable)
    \<and> (l = [GetBlock hash, EventsAt hash] \<or> l = [GetBlock hash, EventsAt hash, ValidatorsAt hash])"
proof (cases "query_session_validators_at a")
  case None
  with assms show ?thesis
    unfolding fetchAll_def
    by (simp add: bind_Inr_iff all2_Inr_iff request_eq pure_eq fetchEvents_eq split_paired_Ex)
next
  case (Some validatorsAt)
  with assms show ?thesis
    unfolding fetchAll_def
    apply (simp add: bind_Inr_iff all2_Inr_iff request_eq pure_eq fetchEvents_eq split_paired_Ex)
    apply (elim exE conjE)
    apply (simp add: pure_eq all2_Inr_iff request_eq fetchEvents_eq)
    done
qed

subsection \<open>fetchBlock\<close>

lemma fetchBlock_Inr:
  assumes "fetchBlock a d fuel hash edocs xdocs = Some (Inr blk, l)"
  obtains block events sv l0 xs0 att where
    "fetchAll a hash = (Inr (block, events, sv), l0)"
    "extractExtrinsics d fuel block events xdocs = Some xs0"
    "sanitizeEvents d events xs0 hash edocs = Inr att"
    "ib_parentHash blk = h_parentHash (b_header block)"
    "length (ib_extrinsics blk) = length (b_extrinsics block)"
    "isGenesis (h_parentHash (b_header block)) \<Longrightarrow> ib_extrinsics blk = at_extrinsics att \<and> l = l0"
    "\<not> isGenesis (h_parentHash (b_header block)) \<Longrightarrow>
       \<exists>r l'. createCalcFee a d (h_parentHash (b_header block)) block = (Inr r, l') \<and> l = l0 @ l'
          \<and> (\<forall>j<length (b_extrinsics block).
                ib_extrinsics blk ! j = feeAnnotate a d r (at_extrinsics att ! j) (b_extrinsics block ! j))"
proof -
  obtain res l0 where fa: "fetchAll a hash = (res, l0)" by (cases "fetchAll a hash")
  with assms obtain block events sv where res: "res = Inr (block, events, sv)"
    by (cases res) (auto simp: fetchBlock_def)
  from assms fa res obtain authorId where
    au: "authorIdOf d sv (h_digest (b_header block)) = Inr authorId"
    by (cases "authorIdOf d sv (h_digest (b_header block))") (auto simp: fetchBlock_def)
  from assms fa res au obtain xs0 where
    xs0: "extractExtrinsics d fuel block events xdocs = Some xs0"
    by (cases "extractExtrinsics d fuel block events xdocs") (auto simp: fetchBlock_def Let_def)
  from assms fa res au xs0 obtain att where att: "sanitizeEvents d events xs0 hash edocs = Inr att"
    by (cases "sanitizeEvents d events xs0 hash edocs") (auto simp: fetchBlock_def Let_def)
  have len_att: "length (at_extrinsics att) = length (b_extrinsics block)"
    using att extractExtrinsics_nth(1) [OF xs0] sanitizeEventsLoop_length
    by (fastforce simp: sanitizeEvents_def Let_def split: events.splits)
  show thesis
  proof (cases "isGenesis (h_parentHash (b_header block))")
    case True
    with assms fa res au xs0 att have "blk = assemble hash block authorId att (at_extrinsics att)"
      and "l = l0"
      by (auto simp: fetchBlock_def Let_def)
    with True len_att show ?thesis
      by (intro that [OF _ xs0 att]) (auto simp: fa res assemble_def)
  next
    case False
    obtain cres l' where cc: "createCalcFee a d (h_parentHash (b_header block)) block = (cres, l')"
      by (cases "createCalcFee a d (h_parentHash (b_header block)) block")
    with assms fa res au xs0 att False obtain r where r: "cres = Inr r"
      by (cases cres) (auto simp: fetchBlock_def Let_def)
    from feeLoop_whole [of "b_extrinsics block" "at_extrinsics att" a d r] len_att
    obtain xs' where loop: "feeLoop a d r 0 (b_extrinsics block) (at_extrinsics att) = Inr xs'"
      and len: "length xs' = length (at_extrinsics att)"
      and nth: "\<And>j. j < length (at_extrinsics att) \<Longrightarrow>
                  xs' ! j = feeAnnotate a d r (at_extrinsics att ! j) (b_extrinsics block ! j)"
      by auto
    from assms fa res au xs0 att False cc r loop have "blk = assemble hash block authorId att xs'"
      and "l = l0 @ l'"
      by (auto simp: fetchBlock_def Let_def)
    with False len_att len nth cc r show ?thesis
      by (intro that [OF _ xs0 att]) (auto simp: fa res assemble_def)
  qed
qed

text \<open>
  The author is extracted before the extrinsics and outside of any \<^verbatim>\<open>try\<close>:
  an error of the consensus engine is the error of fetchBlock.
\<close>

lemma fetchBlock_author_error:
  assumes "fetchAll a hash = (Inr (block, events, sv), l)"
    and "authorIdOf d sv (h_digest (b_header block)) = Inl e"
  shows "fetchBlock a d fuel hash edocs xdocs = Some (Inl e, l)"
  using assms by (simp add: fetchBlock_def)

lemma authorIdOf_no_validators [simp]: "authorIdOf d None digest = Inr None"
  by (simp add: authorIdOf_def)

subsection \<open>createCalcFee\<close>

lemma createCalcFeeDummy_Inr:
  assumes "createCalcFeeDummy a parentHash = (Inr r, l)"
  shows "cr_calcFee r = Some Dummy" and "l = [GetRuntimeVersion parentHash]"
  using assms unfolding createCalcFeeDummy_def bind_Inr_iff request_eq pure_eq
  by auto

lemma createCalcFee_lacking:
  assumes "createCalcFee a d parentHash block = (Inr r, l)"
    and "(case consts_transactionPayment a of None \<Rightarrow> None | Some tp \<Rightarrow> tp_transactionByteFee tp) = None
         \<or> extrinsicBaseWeightExists a = Inr None
         \<or> query_transactionPayment_nextFeeMultiplier_at a = None"
  shows "createCalcFeeDummy a parentHash = (Inr r, l)"
  using assms unfolding createCalcFee_def Let_def
  by (auto simp: throw_eq split: sum.splits option.splits)

lemma createCalcFee_materials:
  assumes "consts_transactionPayment a = Some tp" and "tp_transactionByteFee tp = Some perByte"
    and "extrinsicBaseWeightExists a = Inr (Some w)"
    and "query_transactionPayment_nextFeeMultiplier_at a = Some nextFeeMultiplierAt"
  shows "createCalcFee a d parentHash block =
           createCalcFeeFromParams a d parentHash block perByte nextFeeMultiplierAt"
  using assms by (simp add: createCalcFee_def)

lemma parentParentHash_Inr:
  assumes "parentParentHash a parentHash block = (Inr pph, l)"
  shows "if h_number (b_header block) > 1
         then (\<exists>hdr. rpc_chain_getHeader a parentHash = Inr hdr \<and> pph = h_parentHash hdr)
              \<and> l = [GetHeader parentHash]
         else pph = parentHash \<and> l = []"
  using assms unfolding parentParentHash_def
  by (auto simp: bind_Inr_iff request_eq pure_eq split: if_splits)

lemma extrinsicBaseWeight_requests:
  assumes "extrinsicBaseWeight a d pph specName specVersion = (res, l)"
  shows "l = [] \<or> l = [GetMetadata pph]"
proof (cases "specName \<noteq> JsStr (rv_specName (api_runtimeVersion a))
         \<or> specVersion \<noteq> JsNum (rv_specVersion (api_runtimeVersion a))")
  case True
  with assms have "bind (request (GetMetadata pph) (rpc_state_getMetadata a pph))
          (\<lambda>metadata.
             case baseExtrinsicWeight (expandMetadata d metadata) of
               Inl e \<Rightarrow> throw e
             | Inr w \<Rightarrow> pure w) = (res, l)"
    by (simp add: extrinsicBaseWeight_def)
  then show ?thesis
    by (cases "rpc_state_getMetadata a pph")
       (auto simp: bind_def request_def pure_def throw_def split: sum.splits)
next
  case False
  with assms show ?thesis
    by (auto simp: extrinsicBaseWeight_def pure_def throw_def split: sum.splits)
qed


lemma createCalcFeeFromParams_Inr:
  assumes "createCalcFeeFromParams a d parentHash block perByte nextFeeMultiplierAt = (Inr r, l)"
  obtains pph version p l1 l3 where
    "parentParentHash a parentHash block = (Inr pph, l1)"
    "rpc_state_getRuntimeVersion a pph = Inr version"
    "cr_calcFee r = from_params d p"
    "cr_specName r = JsStr (rv_specName version)"
    "cr_specVersion r = JsNum (rv_specVersion version)"
    "cp_specName p = JsStr (rv_specName version)"
    "cp_specVersion p = JsNum (rv_specVersion version)"
    "cp_perByteStr p = perByteStr perByte block"
    "l = l1 @ [GetRuntimeVersion pph, NextFeeMultiplierAt parentHash] @ l3"
    "l3 = [] \<or> l3 = [GetMetadata pph]"
proof -
  obtain weightToFee where wtf:
    "(case consts_transactionPayment a of None \<Rightarrow> None | Some tp \<Rightarrow> tp_weightToFee tp) = Some weightToFee"
    using assms unfolding createCalcFeeFromParams_def
    by (cases "case consts_transactionPayment a of None \<Rightarrow> None | Some tp \<Rightarrow> tp_weightToFee tp")
       (simp_all add: throw_eq)
  define k3 where "k3 = (\<lambda>(version :: runtime_version) (multiplier :: nat) (ebw :: nat option).
           case ebw of
             None \<Rightarrow> throw (InternalServerError extrinsicBaseWeightUndefined)
           | Some w \<Rightarrow>
               pure \<lparr> cr_calcFee = from_params d
                        \<lparr> cp_coefficients = map coefficient weightToFee,
                          cp_extrinsicBaseWeight = w,
                          cp_multiplier = dec_str multiplier,
                          cp_perByteStr = perByteStr perByte block,
                          cp_specName = JsStr (rv_specName version),
                          cp_specVersion = JsNum (rv_specVersion version) \<rparr>,
                      cr_specName = JsStr (rv_specName version),
                      cr_specVersion = JsNum (rv_specVersion version) \<rparr>)"
  define k2 where "k2 = (\<lambda>pph (vm :: runtime_version \<times> nat).
           bind (extrinsicBaseWeight a d pph (JsStr (rv_specName (fst vm))) (JsNum (rv_specVersion (fst vm))))
             (k3 (fst vm) (snd vm)))"
  define k1 where "k1 = (\<lambda>pph.
           bind (all2 (request (GetRuntimeVersion pph) (rpc_state_getRuntimeVersion a pph))
                      (request (NextFeeMultiplierAt parentHash) (nextFeeMultiplierAt parentHash)))
             (k2 pph))"
  have "createCalcFeeFromParams a d parentHash block perByte nextFeeMultiplierAt
          = bind (parentParentHash a parentHash block) k1"
    unfolding createCalcFeeFromParams_def k1_def k2_def k3_def wtf
    by (simp add: Let_def case_prod_unfold)
  with assms have "bind (parentParentHash a parentHash block) k1 = (Inr r, l)" by simp
  then obtain pph l1 l1' where pp: "parentParentHash a parentHash block = (Inr pph, l1)"
    and s1: "k1 pph = (Inr r, l1')" and l: "l = l1 @ l1'"
    unfolding bind_Inr_iff by blast
  from s1 obtain vm l2 l2' where both:
      "all2 (request (GetRuntimeVersion pph) (rpc_state_getRuntimeVersion a pph))
            (request (NextFeeMultiplierAt parentHash) (nextFeeMultiplierAt parentHash)) = (Inr vm, l2)"
    and s2: "k2 pph vm = (Inr r, l2')" and l1': "l1' = l2 @ l2'"
    unfolding k1_def bind_Inr_iff by blast
  from both have v: "rpc_state_getRuntimeVersion a pph = Inr (fst vm)"
    and l2: "l2 = [GetRuntimeVersion pph, NextFeeMultiplierAt parentHash]"
    unfolding all2_Inr_iff request_eq by auto
  from s2 obtain ebw l3 l3' where ebw:
      "extrinsicBaseWeight a d pph (JsStr (rv_specName (fst vm))) (JsNum (rv_specVersion (fst vm)))
         = (Inr ebw, l3)"
    and s3: "k3 (fst vm) (snd vm) ebw = (Inr r, l3')" and l2': "l2' = l3 @ l3'"
    unfolding k2_def bind_Inr_iff by blast
  from s3 obtain w where w: "ebw = Some w"
    unfolding k3_def by (cases ebw) (simp_all add: throw_eq)
  define p where "p = \<lparr> cp_coefficients = map coefficient weightToFee,
                          cp_extrinsicBaseWeight = w,
                          cp_multiplier = dec_str (snd vm),
                          cp_perByteStr = perByteStr perByte block,
                          cp_specName = JsStr (rv_specName (fst vm)),
                          cp_specVersion = JsNum (rv_specVersion (fst vm)) \<rparr>"
  from s3 w have r: "r = \<lparr> cr_calcFee = from_params d p,
                      cr_specName = JsStr (rv_specName (fst vm)),
                      cr_specVersion = JsNum (rv_specVersion (fst vm)) \<rparr>" and l3': "l3' = []"
    unfolding k3_def p_def by (simp_all add: pure_eq)
  show thesis
  proof (rule that [of pph l1 "fst vm" p l3])
    show "parentParentHash a parentHash block = (Inr pph, l1)" by (fact pp)
    show "rpc_state_getRuntimeVersion a pph = Inr (fst vm)" by (fact v)
    show "cr_calcFee r = from_params d p" by (simp add: r)
    show "cr_specName r = JsStr (rv_specName (fst vm))" by (simp add: r)
    show "cr_specVersion r = JsNum (rv_specVersion (fst vm))" by (simp add: r)
    show "cp_specName p = JsStr (rv_specName (fst vm))" by (simp add: p_def)
    show "cp_specVersion p = JsNum (rv_specVersion (fst vm))" by (simp add: p_def)
    show "cp_perByteStr p = perByteStr perByte block" by (simp add: p_def)
    show "l = l1 @ [GetRuntimeVersion pph, NextFeeMultiplierAt parentHash] @ l3"
      by (simp add: l l1' l2 l2' l3')
    show "l3 = [] \<or> l3 = [GetMetadata pph]"
      by (rule extrinsicBaseWeight_requests [OF ebw])
  qed
qed

subsection \<open>The fields of the attributed extrinsics\<close>

lemma fetchAll_requests:
  "set (snd (fetchAll a hash)) \<subseteq> {GetBlock hash, EventsAt hash, ValidatorsAt hash}"
  by (cases "rpc_chain_getBlock a hash")
     (auto simp: fetchAll_def bind_def all2_def request_def pure_def fetchEvents_def
           split: option.splits sum.splits prod.splits)

lemma sanitizeEvents_Events:
  "sanitizeEvents d (Events evs) xs hash edocs =
     sanitizeEventsLoop d hash edocs evs
       \<lparr> at_extrinsics = xs, at_onInitialize = [], at_onFinalize = [] \<rparr>"
  by (simp add: sanitizeEvents_def)

lemma sanitizeEvents_EventsStr:
  "sanitizeEvents d (EventsStr s) xs hash edocs =
     Inr \<lparr> at_extrinsics = xs, at_onInitialize = [], at_onFinalize = [] \<rparr>"
  by (simp add: sanitizeEvents_def)

text \<open>What the attribution leaves in the fields of the extrinsic at an index.\<close>

lemma sanitizeEvents_nth:
  assumes "sanitizeEvents d events xs hash edocs = Inr att" and "i < length xs"
  shows "x_info (at_extrinsics att ! i) = x_info (xs ! i)"
    and "x_signature (at_extrinsics att ! i) = x_signature (xs ! i)"
    and "x_signature (xs ! i) = None \<Longrightarrow> x_paysFee (at_extrinsics att ! i) = x_paysFee (xs ! i)"
proof -
  have "x_info (at_extrinsics att ! i) = x_info (xs ! i)
      \<and> x_signature (at_extrinsics att ! i) = x_signature (xs ! i)
      \<and> (x_signature (xs ! i) = None \<longrightarrow> x_paysFee (at_extrinsics att ! i) = x_paysFee (xs ! i))"
  proof (cases events)
    case (Events evs)
    with assms(1) have loop: "sanitizeEventsLoop d hash edocs evs
       \<lparr> at_extrinsics = xs, at_onInitialize = [], at_onFinalize = [] \<rparr> = Inr att"
      by (simp add: sanitizeEvents_Events)
    from sanitizeEventsLoop_nth(1,2) [OF loop] sanitizeEventsLoop_nth(5) [OF loop] assms(2)
    show ?thesis by simp
  next
    case (EventsStr s)
    with assms(1) show ?thesis by (auto simp: sanitizeEvents_EventsStr)
  qed
  then show "x_info (at_extrinsics att ! i) = x_info (xs ! i)"
    and "x_signature (at_extrinsics att ! i) = x_signature (xs ! i)"
    and "x_signature (xs ! i) = None \<Longrightarrow> x_paysFee (at_extrinsics att ! i) = x_paysFee (xs ! i)"
    by simp_all
qed

lemma sanitizeEvents_success:
  assumes "sanitizeEvents d (Events evs) xs hash edocs = Inr att" and "i < length xs"
  shows "x_success (at_extrinsics att ! i) =
           (if \<exists>ev\<in>set evs. ev_phase ev = ApplyExtrinsic i \<and> ev_method ev = ''ExtrinsicSuccess''
            then SuccessBool True else x_success (xs ! i))"
    and "x_events (at_extrinsics att ! i) =
           x_events (xs ! i)
           @ map (sanitizeEvent d edocs) (filter (\<lambda>ev. ev_phase ev = ApplyExtrinsic i) evs)"
proof -
  note loop = assms(1) [unfolded sanitizeEvents_Events]
  have i: "i < length (at_extrinsics
             \<lparr> at_extrinsics = xs, at_onInitialize = [], at_onFinalize = [] \<rparr>)"
    using assms(2) by simp
  from sanitizeEventsLoop_nth(3) [OF loop i]
  show "x_success (at_extrinsics att ! i) =
           (if \<exists>ev\<in>set evs. ev_phase ev = ApplyExtrinsic i \<and> ev_method ev = ''ExtrinsicSuccess''
            then SuccessBool True else x_success (xs ! i))"
    by auto
  from sanitizeEventsLoop_nth(4) [OF loop i]
  show "x_events (at_extrinsics att ! i) =
           x_events (xs ! i)
           @ map (sanitizeEvent d edocs) (filter (\<lambda>ev. ev_phase ev = ApplyExtrinsic i) evs)"
    by simp
qed


section \<open>The assembled block\<close>

text \<open>The definitions that evaluate fetchBlock on the example inputs.\<close>

lemmas ex_defs = ex_api_def ex_deps_def ex_block_def ex_header_def ex_raw_def ex_events_def
  ex_successEvent_def ex_failedEvent_def ex_dispatchInfo_def ex_dispatchError_def
  ex_timestamp_def ex_transfer_def ex_badMulti_def ex_registry_def ex_system_def
  ex_hash_def ex_parentHash_def ex_grandparentHash_def ex_zeroHash_def ex_fuel_def

lemmas async_defs = bind_def all2_def request_def pure_def throw_def

lemmas fetchBlock_eval =
  result_extrinsics_def result_block_def result_requests_def
  fetchBlock_def fetchAll_def fetchEvents_def eventsUnavailable_def
  extractExtrinsics_def extractExtrinsic_def parseArgument_def parseArrayGenericCalls_def
  sanitizeEvents_def sanitizeEventsStep_def attributeEvent_def setSuccess_def setPaysFee_def
  sanitizeEvent_def isGenesis_def createCalcFee_def createCalcFeeFromParams_def
  createCalcFeeDummy_def extrinsicBaseWeightExists_def baseExtrinsicWeight_def
  extrinsicBaseWeight_def parentParentHash_def perByteStr_def from_params_def coefficient_def
  feeLoopBody_def feeInfo_def tryFeeInfo_def completedEvent_def assemble_def extractAuthor_def authorIdOf_def
  async_defs ex_defs u8aToHex_def byte_hex_def hex_digit_def
  dec_str.simps dec_digit_def Let_def list_all_iff

text \<open>
  The extrinsics of an assembled block, field by field, in terms of the
  extrinsics of the block that the node returned and of the events.
\<close>

lemma fetchBlock_extrinsics:
  assumes "fetchBlock a d fuel hash edocs xdocs = Some (Inr blk, l)"
  obtains block events sv l0 xs0 att where
    "fetchAll a hash = (Inr (block, events, sv), l0)"
    "extractExtrinsics d fuel block events xdocs = Some xs0"
    "sanitizeEvents d events xs0 hash edocs = Inr att"
    "ib_parentHash blk = h_parentHash (b_header block)"
    "length (ib_extrinsics blk) = length (b_extrinsics block)"
    "length xs0 = length (b_extrinsics block)"
    "length (at_extrinsics att) = length (b_extrinsics block)"
    "\<And>i. i < length (b_extrinsics block) \<Longrightarrow>
       x_signature (ib_extrinsics blk ! i) = x_signature (at_extrinsics att ! i)
       \<and> x_paysFee (ib_extrinsics blk ! i) = x_paysFee (at_extrinsics att ! i)
       \<and> x_success (ib_extrinsics blk ! i) = x_success (at_extrinsics att ! i)
       \<and> x_events (ib_extrinsics blk ! i) = x_events (at_extrinsics att ! i)"
    "\<And>i. i < length (b_extrinsics block) \<Longrightarrow> x_paysFee (at_extrinsics att ! i) \<noteq> Some True \<Longrightarrow>
       ib_extrinsics blk ! i = at_extrinsics att ! i"
    "isGenesis (h_parentHash (b_header block)) \<Longrightarrow> ib_extrinsics blk = at_extrinsics att \<and> l = l0"
proof -
  obtain block events sv l0 xs0 att where
    fa: "fetchAll a hash = (Inr (block, events, sv), l0)"
    and xs0: "extractExtrinsics d fuel block events xdocs = Some xs0"
    and att: "sanitizeEvents d events xs0 hash edocs = Inr att"
    and ph: "ib_parentHash blk = h_parentHash (b_header block)"
    and len: "length (ib_extrinsics blk) = length (b_extrinsics block)"
    and gen: "isGenesis (h_parentHash (b_header block)) \<Longrightarrow> ib_extrinsics blk = at_extrinsics att \<and> l = l0"
    and nongen: "\<not> isGenesis (h_parentHash (b_header block)) \<Longrightarrow>
       \<exists>r l'. createCalcFee a d (h_parentHash (b_header block)) block = (Inr r, l') \<and> l = l0 @ l'
          \<and> (\<forall>j<length (b_extrinsics block).
                ib_extrinsics blk ! j = feeAnnotate a d r (at_extrinsics att ! j) (b_extrinsics block ! j))"
    by (rule fetchBlock_Inr [OF assms]) (rule that; assumption)
  have len0: "length xs0 = length (b_extrinsics block)"
    by (rule extractExtrinsics_nth(1) [OF xs0])
  have len_att: "length (at_extrinsics att) = length (b_extrinsics block)"
  proof (cases events)
    case (Events evs)
    from sanitizeEventsLoop_length [OF att [unfolded Events sanitizeEvents_Events]] len0
    show ?thesis by simp
  next
    case (EventsStr s)
    with att len0 show ?thesis by (auto simp: sanitizeEvents_EventsStr)
  qed
  have fields: "x_signature (ib_extrinsics blk ! i) = x_signature (at_extrinsics att ! i)
       \<and> x_paysFee (ib_extrinsics blk ! i) = x_paysFee (at_extrinsics att ! i)
       \<and> x_success (ib_extrinsics blk ! i) = x_success (at_extrinsics att ! i)
       \<and> x_events (ib_extrinsics blk ! i) = x_events (at_extrinsics att ! i)"
    if "i < length (b_extrinsics block)" for i
  proof (cases "isGenesis (h_parentHash (b_header block))")
    case True
    with gen show ?thesis by simp
  next
    case False
    from nongen [OF False] that obtain r where
      "ib_extrinsics blk ! i = feeAnnotate a d r (at_extrinsics att ! i) (b_extrinsics block ! i)"
      by blast
    then show ?thesis by simp
  qed
  have same: "ib_extrinsics blk ! i = at_extrinsics att ! i"
    if "i < length (b_extrinsics block)" "x_paysFee (at_extrinsics att ! i) \<noteq> Some True" for i
  proof (cases "isGenesis (h_parentHash (b_header block))")
    case True
    with gen show ?thesis by simp
  next
    case False
    from nongen [OF False] that(1) obtain r where
      "ib_extrinsics blk ! i = feeAnnotate a d r (at_extrinsics att ! i) (b_extrinsics block ! i)"
      by blast
    with that(2) show ?thesis by (simp add: feeAnnotate_not_paying)
  qed
  from fa xs0 att ph len len0 len_att fields same gen show thesis by (rule that)
qed

subsection \<open>The success flag\<close>

text \<open>
  Claim C1, as the code has it.  When the events were fetched, the events of an
  extrinsic of the assembled block are the events of the block whose phase is
  \<^verbatim>\<open>ApplyExtrinsic\<close> of its index, in their order, and its \<^verbatim>\<open>success\<close> is a
  boolean: true when one of these events has the method \<^verbatim>\<open>ExtrinsicSuccess\<close>,
  false otherwise, whether an \<^verbatim>\<open>ExtrinsicFailed\<close> event was attributed to it or
  no event at all.
\<close>

theorem success_is_true_exactly_with_a_success_event:
  assumes "fetchBlock a d fuel hash edocs xdocs = Some (Inr blk, l)"
    and "query_system_events_at a hash = Inr evs"
    and "i < length (ib_extrinsics blk)"
  shows "x_events (ib_extrinsics blk ! i) =
           map (sanitizeEvent d edocs) (filter (\<lambda>ev. ev_phase ev = ApplyExtrinsic i) evs)
         \<and> x_success (ib_extrinsics blk ! i) =
             SuccessBool (\<exists>ev\<in>set evs. ev_phase ev = ApplyExtrinsic i
                                        \<and> ev_method ev = ''ExtrinsicSuccess'')"
proof -
  obtain block events sv l0 xs0 att where
    fa: "fetchAll a hash = (Inr (block, events, sv), l0)"
    and xs0: "extractExtrinsics d fuel block events xdocs = Some xs0"
    and att: "sanitizeEvents d events xs0 hash edocs = Inr att"
    and len: "length (ib_extrinsics blk) = length (b_extrinsics block)"
    and len0: "length xs0 = length (b_extrinsics block)"
    and fields: "\<And>i. i < length (b_extrinsics block) \<Longrightarrow>
       x_signature (ib_extrinsics blk ! i) = x_signature (at_extrinsics att ! i)
       \<and> x_paysFee (ib_extrinsics blk ! i) = x_paysFee (at_extrinsics att ! i)
       \<and> x_success (ib_extrinsics blk ! i) = x_success (at_extrinsics att ! i)
       \<and> x_events (ib_extrinsics blk ! i) = x_events (at_extrinsics att ! i)"
    by (rule fetchBlock_extrinsics [OF assms(1)]) (rule that; assumption)
  from fetchAll_Inr [OF fa] assms(2) have ev: "events = Events evs" by simp
  from assms(3) len have i: "i < length (b_extrinsics block)" by simp
  from extractExtrinsics_nth(2) [OF xs0 i] ev obtain call where
    x: "xs0 ! i = extractExtrinsic d (SuccessBool False) xdocs (b_extrinsics block ! i) call"
    by auto
  from i len0 have i0: "i < length xs0" by simp
  from sanitizeEvents_success [OF att [unfolded ev] i0] x fields [OF i]
  show ?thesis by auto
qed

text \<open>
  The example block with a success event for its first two extrinsics and a
  failure event for the third.
\<close>

theorem success_is_true_exactly_with_a_success_event_witness:
  "query_system_events_at (ex_api (ex_block 10 ex_parentHash) ex_events) ex_hash = Inr ex_events
   \<and> map ev_method ex_events = [''ExtrinsicSuccess'', ''ExtrinsicSuccess'', ''ExtrinsicFailed'']
   \<and> map ev_phase ex_events = [ApplyExtrinsic 0, ApplyExtrinsic 1, ApplyExtrinsic 2]
   \<and> map x_success (result_extrinsics
         (fetchBlock (ex_api (ex_block 10 ex_parentHash) ex_events) ex_deps ex_fuel ex_hash False False))
       = [SuccessBool True, SuccessBool True, SuccessBool False]"
proof -
  have "\<exists>blk l. fetchBlock (ex_api (ex_block 10 ex_parentHash) ex_events) ex_deps ex_fuel ex_hash
                  False False = Some (Inr blk, l)"
    by (simp add: fetchBlock_eval)
  then obtain blk l where e: "fetchBlock (ex_api (ex_block 10 ex_parentHash) ex_events) ex_deps
      ex_fuel ex_hash False False = Some (Inr blk, l)"
    by blast
  have q: "query_system_events_at (ex_api (ex_block 10 ex_parentHash) ex_events) ex_hash = Inr ex_events"
    by (simp add: ex_api_def)
  have n: "2 < length (ib_extrinsics blk)"
    using e by (auto simp: fetchBlock_eval)
  from success_is_true_exactly_with_a_success_event [OF e q n]
  show ?thesis by (simp add: fetchBlock_eval)
qed

text \<open>
  Claim C1 as it is written fails: with the single event \<^verbatim>\<open>ExtrinsicSuccess\<close>
  in phase \<^verbatim>\<open>ApplyExtrinsic(1)\<close>, the first and the third extrinsic have no
  event, hence no \<^verbatim>\<open>ExtrinsicFailed\<close> event, and their \<^verbatim>\<open>success\<close> is
  \<^verbatim>\<open>false\<close>, not a third value.
\<close>

theorem success_false_without_failure_event_counterexample:
  "map x_success (result_extrinsics
      (fetchBlock (ex_api (ex_block 10 ex_parentHash) [ex_successEvent 1]) ex_deps ex_fuel ex_hash
         False False))
     = [SuccessBool False, SuccessBool True, SuccessBool False]
   \<and> map (map se_method \<circ> x_events) (result_extrinsics
      (fetchBlock (ex_api (ex_block 10 ex_parentHash) [ex_successEvent 1]) ex_deps ex_fuel ex_hash
         False False))
     = [[], [(''system'', ''ExtrinsicSuccess'')], []]"
  by (simp add: fetchBlock_eval)

subsection \<open>Unsigned extrinsics\<close>

text \<open>
  Claim C5.  In every assembled block, whatever the events, an extrinsic of
  the block that is not signed has no signature and its \<^verbatim>\<open>paysFee\<close> is
  \<^verbatim>\<open>false\<close>.
\<close>

theorem unsigned_extrinsic_never_pays_fee:
  assumes "fetchBlock a d fuel hash edocs xdocs = Some (Inr blk, l)"
  shows "\<exists>block. rpc_chain_getBlock a hash = Inr block
           \<and> length (ib_extrinsics blk) = length (b_extrinsics block)
           \<and> (\<forall>i<length (b_extrinsics block). \<not> re_isSigned (b_extrinsics block ! i) \<longrightarrow>
                 x_signature (ib_extrinsics blk ! i) = None
                 \<and> x_paysFee (ib_extrinsics blk ! i) = Some False)"
proof -
  obtain block events sv l0 xs0 att where
    fa: "fetchAll a hash = (Inr (block, events, sv), l0)"
    and xs0: "extractExtrinsics d fuel block events xdocs = Some xs0"
    and att: "sanitizeEvents d events xs0 hash edocs = Inr att"
    and len: "length (ib_extrinsics blk) = length (b_extrinsics block)"
    and len0: "length xs0 = length (b_extrinsics block)"
    and fields: "\<And>i. i < length (b_extrinsics block) \<Longrightarrow>
       x_signature (ib_extrinsics blk ! i) = x_signature (at_extrinsics att ! i)
       \<and> x_paysFee (ib_extrinsics blk ! i) = x_paysFee (at_extrinsics att ! i)
       \<and> x_success (ib_extrinsics blk ! i) = x_success (at_extrinsics att ! i)
       \<and> x_events (ib_extrinsics blk ! i) = x_events (at_extrinsics att ! i)"
    by (rule fetchBlock_extrinsics [OF assms(1)]) (rule that; assumption)
  have "x_signature (ib_extrinsics blk ! i) = None \<and> x_paysFee (ib_extrinsics blk ! i) = Some False"
    if i: "i < length (b_extrinsics block)" and u: "\<not> re_isSigned (b_extrinsics block ! i)" for i
  proof -
    from extractExtrinsics_nth(2) [OF xs0 i] obtain s call where
      x: "xs0 ! i = extractExtrinsic d s xdocs (b_extrinsics block ! i) call"
      by blast
    with u have sig: "x_signature (xs0 ! i) = None" and pf: "x_paysFee (xs0 ! i) = Some False"
      by simp_all
    from i len0 have i0: "i < length xs0" by simp
    from sanitizeEvents_nth(2,3) [OF att i0] sig pf fields [OF i] show ?thesis by simp
  qed
  with fetchAll_Inr [OF fa] len show ?thesis by blast
qed

text \<open>
  In the example the unsigned \<^verbatim>\<open>timestamp.set\<close> has a success event whose data
  says \<^verbatim>\<open>paysFee: Yes\<close>, as the two signed extrinsics have.
\<close>

theorem unsigned_extrinsic_never_pays_fee_witness:
  "map re_isSigned (b_extrinsics (ex_block 10 ex_parentHash)) = [False, True, True]
   \<and> map x_paysFee (result_extrinsics
         (fetchBlock (ex_api (ex_block 10 ex_parentHash) ex_events) ex_deps ex_fuel ex_hash False False))
       = [Some False, Some True, Some True]"
proof -
  have "\<exists>blk l. fetchBlock (ex_api (ex_block 10 ex_parentHash) ex_events) ex_deps ex_fuel ex_hash
                  False False = Some (Inr blk, l)"
    by (simp add: fetchBlock_eval)
  then obtain blk l where e: "fetchBlock (ex_api (ex_block 10 ex_parentHash) ex_events) ex_deps
      ex_fuel ex_hash False False = Some (Inr blk, l)"
    by blast
  from unsigned_extrinsic_never_pays_fee [OF e]
  show ?thesis by (simp add: fetchBlock_eval)
qed

subsection \<open>Events that could not be fetched\<close>

text \<open>
  Claim C10.  When the query of the events is rejected, every extrinsic of the
  assembled block, signed or not, keeps the empty \<^verbatim>\<open>info\<close>, the \<^verbatim>\<open>paysFee\<close> that
  extractExtrinsics gave it (\<^verbatim>\<open>null\<close> when signed, \<^verbatim>\<open>false\<close> when not), the
  string of fetchEvents as \<^verbatim>\<open>success\<close> and no event; the fee loop skips it
  whatever createCalcFee returned.
\<close>

theorem degraded_mode_records_no_fee_info:
  assumes "fetchBlock a d fuel hash edocs xdocs = Some (Inr blk, l)"
    and "query_system_events_at a hash = Inl e"
  shows "\<exists>block. rpc_chain_getBlock a hash = Inr block
           \<and> length (ib_extrinsics blk) = length (b_extrinsics block)
           \<and> (\<forall>i<length (b_extrinsics block).
                 x_info (ib_extrinsics blk ! i) = InfoEmpty
                 \<and> x_paysFee (ib_extrinsics blk ! i) =
                     (if re_isSigned (b_extrinsics block ! i) then None else Some False)
                 \<and> x_success (ib_extrinsics blk ! i) = SuccessStr eventsUnavailable
                 \<and> x_events (ib_extrinsics blk ! i) = []
                 \<and> (\<forall>r. feeInfo a d r (ib_extrinsics blk ! i) (b_extrinsics block ! i) = None))"
proof -
  obtain block events sv l0 xs0 att where
    fa: "fetchAll a hash = (Inr (block, events, sv), l0)"
    and xs0: "extractExtrinsics d fuel block events xdocs = Some xs0"
    and att: "sanitizeEvents d events xs0 hash edocs = Inr att"
    and len: "length (ib_extrinsics blk) = length (b_extrinsics block)"
    and same: "\<And>i. i < length (b_extrinsics block) \<Longrightarrow> x_paysFee (at_extrinsics att ! i) \<noteq> Some True \<Longrightarrow>
       ib_extrinsics blk ! i = at_extrinsics att ! i"
    by (rule fetchBlock_extrinsics [OF assms(1)]) (rule that; assumption)
  from fetchAll_Inr [OF fa] assms(2) have ev: "events = EventsStr eventsUnavailable" by simp
  from att ev have att_xs0: "at_extrinsics att = xs0" by (auto simp: sanitizeEvents_EventsStr)
  have "x_info (ib_extrinsics blk ! i) = InfoEmpty
                 \<and> x_paysFee (ib_extrinsics blk ! i) =
                     (if re_isSigned (b_extrinsics block ! i) then None else Some False)
                 \<and> x_success (ib_extrinsics blk ! i) = SuccessStr eventsUnavailable
                 \<and> x_events (ib_extrinsics blk ! i) = []
                 \<and> (\<forall>r. feeInfo a d r (ib_extrinsics blk ! i) (b_extrinsics block ! i) = None)"
    if i: "i < length (b_extrinsics block)" for i
  proof -
    from extractExtrinsics_nth(2) [OF xs0 i] ev obtain call where
      x: "xs0 ! i = extractExtrinsic d (SuccessStr eventsUnavailable) xdocs (b_extrinsics block ! i) call"
      by auto
    then have "x_paysFee (at_extrinsics att ! i) \<noteq> Some True" by (simp add: att_xs0)
    from same [OF i this] x show ?thesis by (simp add: att_xs0 feeInfo_def)
  qed
  with fetchAll_Inr [OF fa] len show ?thesis by blast
qed

text \<open>The example block on a node that has discarded the state of the block.\<close>

theorem degraded_mode_records_no_fee_info_witness:
  "query_system_events_at
      ((ex_api (ex_block 10 ex_parentHash) ex_events)
         \<lparr>query_system_events_at := (\<lambda>h. Inl (RpcError ''State already discarded''))\<rparr>) ex_hash
     = Inl (RpcError ''State already discarded'')
   \<and> map x_info (result_extrinsics
         (fetchBlock ((ex_api (ex_block 10 ex_parentHash) ex_events)
            \<lparr>query_system_events_at := (\<lambda>h. Inl (RpcError ''State already discarded''))\<rparr>)
            ex_deps ex_fuel ex_hash False False))
       = [InfoEmpty, InfoEmpty, InfoEmpty]
   \<and> map x_paysFee (result_extrinsics
         (fetchBlock ((ex_api (ex_block 10 ex_parentHash) ex_events)
            \<lparr>query_system_events_at := (\<lambda>h. Inl (RpcError ''State already discarded''))\<rparr>)
            ex_deps ex_fuel ex_hash False False))
       = [Some False, None, None]
   \<and> map x_success (result_extrinsics
         (fetchBlock ((ex_api (ex_block 10 ex_parentHash) ex_events)
            \<lparr>query_system_events_at := (\<lambda>h. Inl (RpcError ''State already discarded''))\<rparr>)
            ex_deps ex_fuel ex_hash False False))
       = [SuccessStr eventsUnavailable, SuccessStr eventsUnavailable, SuccessStr eventsUnavailable]"
proof -
  let ?a = "(ex_api (ex_block 10 ex_parentHash) ex_events)
            \<lparr>query_system_events_at := (\<lambda>h. Inl (RpcError ''State already discarded''))\<rparr>"
  have "\<exists>blk l. fetchBlock ?a ex_deps ex_fuel ex_hash False False = Some (Inr blk, l)"
    by (simp add: fetchBlock_eval)
  then obtain blk l where e: "fetchBlock ?a ex_deps ex_fuel ex_hash False False = Some (Inr blk, l)"
    by blast
  have q: "query_system_events_at ?a ex_hash = Inl (RpcError ''State already discarded'')"
    by simp
  from degraded_mode_records_no_fee_info [OF e q]
  show ?thesis by (simp add: fetchBlock_eval)
qed

subsection \<open>The genesis block\<close>

text \<open>
  Claim C4.  When the parent hash of the block is all zero, the assembled block
  has the extrinsics that sanitizeEvents returned, each with the empty
  \<^verbatim>\<open>info\<close>, and the only requests sent to the node are those of the first
  \<^verbatim>\<open>Promise.all\<close>: createCalcFee, which begins by asking for a runtime version
  or a header, was not called.
\<close>

theorem genesis_block_carries_no_fee_info:
  assumes "fetchBlock a d fuel hash edocs xdocs = Some (Inr blk, l)"
    and "isGenesis (ib_parentHash blk)"
  shows "(\<forall>x\<in>set (ib_extrinsics blk). x_info x = InfoEmpty)
         \<and> set l \<subseteq> {GetBlock hash, EventsAt hash, ValidatorsAt hash}
         \<and> (\<exists>block events sv xs att.
               fetchAll a hash = (Inr (block, events, sv), l)
               \<and> extractExtrinsics d fuel block events xdocs = Some xs
               \<and> sanitizeEvents d events xs hash edocs = Inr att
               \<and> ib_extrinsics blk = at_extrinsics att)"
proof -
  obtain block events sv l0 xs0 att where
    fa: "fetchAll a hash = (Inr (block, events, sv), l0)"
    and xs0: "extractExtrinsics d fuel block events xdocs = Some xs0"
    and att: "sanitizeEvents d events xs0 hash edocs = Inr att"
    and ph: "ib_parentHash blk = h_parentHash (b_header block)"
    and len0: "length xs0 = length (b_extrinsics block)"
    and len_att: "length (at_extrinsics att) = length (b_extrinsics block)"
    and gen: "isGenesis (h_parentHash (b_header block)) \<Longrightarrow> ib_extrinsics blk = at_extrinsics att \<and> l = l0"
    by (rule fetchBlock_extrinsics [OF assms(1)]) (rule that; assumption)
  from gen assms(2) ph have eq: "ib_extrinsics blk = at_extrinsics att" and l: "l = l0" by simp_all
  have "x_info (at_extrinsics att ! i) = InfoEmpty" if "i < length (at_extrinsics att)" for i
  proof -
    from that len_att len0 have i: "i < length (b_extrinsics block)" and i0: "i < length xs0"
      by simp_all
    from extractExtrinsics_nth(2) [OF xs0 i] obtain s call where
      "xs0 ! i = extractExtrinsic d s xdocs (b_extrinsics block ! i) call"
      by blast
    with sanitizeEvents_nth(1) [OF att i0] show ?thesis by simp
  qed
  then have "\<forall>x\<in>set (ib_extrinsics blk). x_info x = InfoEmpty"
    unfolding eq by (metis in_set_conv_nth)
  moreover from fetchAll_requests [of a hash] fa l
  have "set l \<subseteq> {GetBlock hash, EventsAt hash, ValidatorsAt hash}" by simp
  ultimately show ?thesis using fa xs0 att eq l by blast
qed

text \<open>
  The example block with the number 0 and the zero parent hash: its signed
  extrinsics pay a fee and still have no fee info.
\<close>

theorem genesis_block_carries_no_fee_info_witness:
  "isGenesis ex_zeroHash
   \<and> map x_info (result_extrinsics
         (fetchBlock (ex_api (ex_block 0 ex_zeroHash) ex_events) ex_deps ex_fuel ex_hash False False))
       = [InfoEmpty, InfoEmpty, InfoEmpty]
   \<and> map x_paysFee (result_extrinsics
         (fetchBlock (ex_api (ex_block 0 ex_zeroHash) ex_events) ex_deps ex_fuel ex_hash False False))
       = [Some False, Some True, Some True]
   \<and> result_requests
         (fetchBlock (ex_api (ex_block 0 ex_zeroHash) ex_events) ex_deps ex_fuel ex_hash False False)
       = [GetBlock ex_hash, EventsAt ex_hash, ValidatorsAt ex_hash]"
proof -
  have "\<exists>blk l. fetchBlock (ex_api (ex_block 0 ex_zeroHash) ex_events) ex_deps ex_fuel ex_hash
                  False False = Some (Inr blk, l)"
    by (simp add: fetchBlock_eval)
  then obtain blk l where e: "fetchBlock (ex_api (ex_block 0 ex_zeroHash) ex_events) ex_deps
      ex_fuel ex_hash False False = Some (Inr blk, l)"
    by blast
  have g: "isGenesis (ib_parentHash blk)"
    using e by (auto simp: fetchBlock_eval)
  from genesis_block_carries_no_fee_info [OF e g]
  show ?thesis by (simp add: fetchBlock_eval)
qed


subsection \<open>Events of an extrinsic that the block does not have\<close>

text \<open>
  Claim C6.  When the block and its events were fetched: if an event has the
  phase \<^verbatim>\<open>ApplyExtrinsic(i)\<close> with \<open>i\<close> not below the number of extrinsics of
  the block, sanitizeEvents throws the error whose message names such an index
  and ends with the hash of the block, and fetchBlock returns no block: it
  fails with the error of the consensus engine when the extraction of the
  author, which comes first, throws, and with the error of sanitizeEvents
  otherwise; if every such \<open>i\<close> is below the number of extrinsics,
  sanitizeEvents returns; and one pass of its loop on an event whose index is
  in range never throws.
\<close>

theorem missing_extrinsic_aborts_the_assembly:
  assumes "fetchAll a hash = (Inr (block, Events evs, sv), l)"
    and "extractExtrinsics d fuel block (Events evs) xdocs = Some xs"
  shows "((\<exists>ev\<in>set evs. \<exists>i. ev_phase ev = ApplyExtrinsic i \<and> length (b_extrinsics block) \<le> i)
           \<longrightarrow> (\<exists>ev\<in>set evs. \<exists>i. ev_phase ev = ApplyExtrinsic i \<and> length (b_extrinsics block) \<le> i
                  \<and> sanitizeEvents d (Events evs) xs hash edocs =
                      Inl (Error (''Missing extrinsic '' @ dec_str i @ '' in block ''
                                  @ u8aToHex hash))
                  \<and> fetchBlock a d fuel hash edocs xdocs =
                      Some (Inl (case authorIdOf d sv (h_digest (b_header block)) of
                                   Inl e \<Rightarrow> e
                                 | Inr authorId \<Rightarrow>
                                     Error (''Missing extrinsic '' @ dec_str i @ '' in block ''
                                            @ u8aToHex hash)), l)))
         \<and> ((\<forall>ev\<in>set evs. \<forall>i. ev_phase ev = ApplyExtrinsic i \<longrightarrow> i < length (b_extrinsics block))
           \<longrightarrow> (\<exists>att. sanitizeEvents d (Events evs) xs hash edocs = Inr att))
         \<and> (\<forall>ev st i. ev_phase ev = ApplyExtrinsic i \<and> i < length (at_extrinsics st)
           \<longrightarrow> (\<exists>st'. sanitizeEventsStep d hash edocs ev st = Inr st'))"
proof (intro conjI impI allI)
  let ?st = "\<lparr> at_extrinsics = xs, at_onInitialize = [], at_onFinalize = [] \<rparr>"
  have len: "length (at_extrinsics ?st) = length (b_extrinsics block)"
    using extractExtrinsics_nth(1) [OF assms(2)] by simp
  {
    assume bad: "\<exists>ev\<in>set evs. \<exists>i. ev_phase ev = ApplyExtrinsic i \<and> length (b_extrinsics block) \<le> i"
    have "\<not> (\<exists>st'. sanitizeEventsLoop d hash edocs evs ?st = Inr st')"
      unfolding sanitizeEventsLoop_Inr_iff len using bad by (auto simp: not_less)
    then obtain e where e: "sanitizeEventsLoop d hash edocs evs ?st = Inl e"
      by (cases "sanitizeEventsLoop d hash edocs evs ?st") auto
    from sanitizeEventsLoop_Inl [OF e] obtain ev i where
      ev: "ev \<in> set evs" "ev_phase ev = ApplyExtrinsic i" "length (b_extrinsics block) \<le> i"
      and msg: "e = Error (''Missing extrinsic '' @ dec_str i @ '' in block '' @ u8aToHex hash)"
      unfolding len by blast
    from e have se: "sanitizeEvents d (Events evs) xs hash edocs = Inl e"
      by (simp add: sanitizeEvents_Events)
    have "fetchBlock a d fuel hash edocs xdocs =
            Some (Inl (case authorIdOf d sv (h_digest (b_header block)) of
                         Inl e' \<Rightarrow> e' | Inr authorId \<Rightarrow> e), l)"
      by (cases "authorIdOf d sv (h_digest (b_header block))")
         (simp_all add: fetchBlock_def assms se)
    with ev se
    show "\<exists>ev\<in>set evs. \<exists>i. ev_phase ev = ApplyExtrinsic i \<and> length (b_extrinsics block) \<le> i
                  \<and> sanitizeEvents d (Events evs) xs hash edocs =
                      Inl (Error (''Missing extrinsic '' @ dec_str i @ '' in block ''
                                  @ u8aToHex hash))
                  \<and> fetchBlock a d fuel hash edocs xdocs =
                      Some (Inl (case authorIdOf d sv (h_digest (b_header block)) of
                                   Inl e \<Rightarrow> e
                                 | Inr authorId \<Rightarrow>
                                     Error (''Missing extrinsic '' @ dec_str i @ '' in block ''
                                            @ u8aToHex hash)), l)"
      unfolding msg by blast
  }
  {
    assume "\<forall>ev\<in>set evs. \<forall>i. ev_phase ev = ApplyExtrinsic i \<longrightarrow> i < length (b_extrinsics block)"
    then show "\<exists>att. sanitizeEvents d (Events evs) xs hash edocs = Inr att"
      unfolding sanitizeEvents_Events sanitizeEventsLoop_Inr_iff len by blast
  }
  {
    fix ev :: event_record and st :: attribution and i
    assume "ev_phase ev = ApplyExtrinsic i \<and> i < length (at_extrinsics st)"
    then show "\<exists>st'. sanitizeEventsStep d hash edocs ev st = Inr st'"
      unfolding sanitizeEventsStep_Inr_iff by auto
  }
qed

text \<open>
  The example block, of three extrinsics, with an event of the extrinsic 3:
  the error is that of sanitizeEvents when the engine finds the author, and
  that of the engine when the payload of the digest item is empty.
\<close>

theorem missing_extrinsic_aborts_the_assembly_witness:
  "map ev_phase [ex_successEvent 1, ex_failedEvent 3] = [ApplyExtrinsic 1, ApplyExtrinsic 3]
   \<and> length (b_extrinsics (ex_block 10 ex_parentHash)) = 3
   \<and> authorIdOf ex_deps (Some [''alice'', ''bob''])
        (h_digest (b_header (ex_block 10 ex_parentHash))) = Inr (Some ''alice'')
   \<and> fetchBlock (ex_api (ex_block 10 ex_parentHash) [ex_successEvent 1, ex_failedEvent 3])
        ex_deps ex_fuel ex_hash False False
      = Some (Inl (Error (''Missing extrinsic 3 in block '' @ u8aToHex ex_hash)),
              [GetBlock ex_hash, EventsAt ex_hash, ValidatorsAt ex_hash])
   \<and> authorIdOf ex_deps (Some [''alice'', ''bob''])
        (h_digest (b_header (ex_undecodableAuthor (ex_block 10 ex_parentHash))))
      = Inl (Error ''Unable to decode the pre-digest'')
   \<and> fetchBlock (ex_api (ex_undecodableAuthor (ex_block 10 ex_parentHash))
                    [ex_successEvent 1, ex_failedEvent 3])
        ex_deps ex_fuel ex_hash False False
      = Some (Inl (Error ''Unable to decode the pre-digest''),
              [GetBlock ex_hash, EventsAt ex_hash, ValidatorsAt ex_hash])"
proof -
  let ?evs = "[ex_successEvent 1, ex_failedEvent 3]"
  let ?b = "ex_block 10 ex_parentHash"
  let ?u = "ex_undecodableAuthor ?b"
  have fa: "fetchAll (ex_api ?b ?evs) ex_hash =
              (Inr (?b, Events ?evs, Some [''alice'', ''bob'']),
               [GetBlock ex_hash, EventsAt ex_hash, ValidatorsAt ex_hash])"
    by (simp add: fetchAll_def fetchEvents_def async_defs ex_api_def)
  have fu: "fetchAll (ex_api ?u ?evs) ex_hash =
              (Inr (?u, Events ?evs, Some [''alice'', ''bob'']),
               [GetBlock ex_hash, EventsAt ex_hash, ValidatorsAt ex_hash])"
    by (simp add: fetchAll_def fetchEvents_def async_defs ex_api_def)
  have "\<exists>xs. extractExtrinsics ex_deps ex_fuel ?b (Events ?evs) False = Some xs"
    by (simp add: fetchBlock_eval)
  then obtain xs where
    xs: "extractExtrinsics ex_deps ex_fuel ?b (Events ?evs) False = Some xs"
    by blast
  have "\<exists>xs. extractExtrinsics ex_deps ex_fuel ?u (Events ?evs) False = Some xs"
    by (simp add: fetchBlock_eval ex_undecodableAuthor_def)
  then obtain xu where
    xu: "extractExtrinsics ex_deps ex_fuel ?u (Events ?evs) False = Some xu"
    by blast
  from missing_extrinsic_aborts_the_assembly [OF fa xs, of False]
    missing_extrinsic_aborts_the_assembly [OF fu xu, of False]
  show ?thesis by (simp add: fetchBlock_eval ex_undecodableAuthor_def)
qed

subsection \<open>Errors of the fee computation\<close>

text \<open>
  Claim C7.  Once the author is extracted and createCalcFee has returned,
  fetchBlock returns the assembled block, whatever \<^verbatim>\<open>calc_fee\<close> and \<^verbatim>\<open>createType\<close> do: the extrinsic at each
  index is the attributed extrinsic at that index with the \<^verbatim>\<open>info\<close> that the
  pass of the fee loop at that index gives it, which depends on no other
  extrinsic; and when the \<^verbatim>\<open>try\<close> block of that pass throws, the extrinsic
  is left as it was but for the \<^verbatim>\<open>info\<close>, which is the error object
  \<^verbatim>\<open>{ error: 'Unable to fetch fee info' }\<close>.
\<close>

theorem fee_error_stays_with_its_extrinsic:
  assumes "fetchAll a hash = (Inr (block, events, sv), l0)"
    and "authorIdOf d sv (h_digest (b_header block)) = Inr authorId"
    and "extractExtrinsics d fuel block events xdocs = Some xs"
    and "sanitizeEvents d events xs hash edocs = Inr att"
    and "\<not> isGenesis (h_parentHash (b_header block))"
    and "createCalcFee a d (h_parentHash (b_header block)) block = (Inr r, l')"
  shows "\<exists>blk. fetchBlock a d fuel hash edocs xdocs = Some (Inr blk, l0 @ l')
           \<and> length (ib_extrinsics blk) = length (b_extrinsics block)
           \<and> (\<forall>i<length (b_extrinsics block).
                 ib_extrinsics blk ! i =
                   feeAnnotate a d r (at_extrinsics att ! i) (b_extrinsics block ! i)
                 \<and> (\<forall>calcFee err.
                       x_paysFee (at_extrinsics att ! i) = Some True
                       \<and> re_isSigned (b_extrinsics block ! i)
                       \<and> cr_calcFee r = Some calcFee
                       \<and> tryFeeInfo a d calcFee (at_extrinsics att ! i) (b_extrinsics block ! i) = Inl err
                       \<longrightarrow> ib_extrinsics blk ! i =
                             (at_extrinsics att ! i)\<lparr>x_info := InfoError ''Unable to fetch fee info''\<rparr>))"
proof -
  have len_att: "length (at_extrinsics att) = length (b_extrinsics block)"
  proof (cases events)
    case (Events evs)
    from sanitizeEventsLoop_length [OF assms(4) [unfolded Events sanitizeEvents_Events]]
      extractExtrinsics_nth(1) [OF assms(3)]
    show ?thesis by simp
  next
    case (EventsStr s)
    with assms(4) extractExtrinsics_nth(1) [OF assms(3)] show ?thesis
      by (auto simp: sanitizeEvents_EventsStr)
  qed
  from feeLoop_whole [of "b_extrinsics block" "at_extrinsics att" a d r] len_att
  obtain xs' where loop: "feeLoop a d r 0 (b_extrinsics block) (at_extrinsics att) = Inr xs'"
    and len: "length xs' = length (b_extrinsics block)"
    and nth: "\<And>j. j < length (b_extrinsics block) \<Longrightarrow>
                xs' ! j = feeAnnotate a d r (at_extrinsics att ! j) (b_extrinsics block ! j)"
    by auto
  have fb: "fetchBlock a d fuel hash edocs xdocs =
              Some (Inr (assemble hash block authorId att xs'), l0 @ l')"
    by (simp add: fetchBlock_def assms loop)
  have ext: "ib_extrinsics (assemble hash block authorId att xs') = xs'"
    by (simp add: assemble_def)
  have thrown: "feeAnnotate a d r x raw = x\<lparr>x_info := InfoError ''Unable to fetch fee info''\<rparr>"
    if "x_paysFee x = Some True" "re_isSigned raw" "cr_calcFee r = Some calcFee"
       "tryFeeInfo a d calcFee x raw = Inl err" for x raw calcFee err
    using that by (simp add: feeAnnotate_def feeInfo_def)
  show ?thesis
  proof (intro exI conjI allI impI)
    show "fetchBlock a d fuel hash edocs xdocs =
            Some (Inr (assemble hash block authorId att xs'), l0 @ l')"
      by (fact fb)
    show "length (ib_extrinsics (assemble hash block authorId att xs')) = length (b_extrinsics block)"
      by (simp add: ext len)
  next
    fix i assume i: "i < length (b_extrinsics block)"
    show "ib_extrinsics (assemble hash block authorId att xs') ! i =
            feeAnnotate a d r (at_extrinsics att ! i) (b_extrinsics block ! i)"
      by (simp add: ext nth [OF i])
    fix calcFee err
    assume "x_paysFee (at_extrinsics att ! i) = Some True
            \<and> re_isSigned (b_extrinsics block ! i)
            \<and> cr_calcFee r = Some calcFee
            \<and> tryFeeInfo a d calcFee (at_extrinsics att ! i) (b_extrinsics block ! i) = Inl err"
    then show "ib_extrinsics (assemble hash block authorId att xs') ! i =
            (at_extrinsics att ! i)\<lparr>x_info := InfoError ''Unable to fetch fee info''\<rparr>"
      using thrown [of "at_extrinsics att ! i" "b_extrinsics block ! i" calcFee err]
      by (simp add: ext nth [OF i])
  qed
qed

text \<open>
  In the example \<^verbatim>\<open>calc_fee\<close> throws for the third extrinsic, of encoded length
  152: the second extrinsic has its fee and the block is assembled.
\<close>

theorem fee_error_stays_with_its_extrinsic_witness:
  "map re_encodedLength (b_extrinsics (ex_block 10 ex_parentHash)) = [11, 143, 152]
   \<and> authorIdOf ex_deps (Some [''alice'', ''bob''])
        (h_digest (b_header (ex_block 10 ex_parentHash))) = Inr (Some ''alice'')
   \<and> map x_info (result_extrinsics
        (fetchBlock (ex_api (ex_block 10 ex_parentHash) ex_events) ex_deps ex_fuel ex_hash False False))
      = [InfoEmpty,
         InfoDispatch (JObj [(''weight'', JNum 190949000), (''partialFee'', JStr ''153000014'')]),
         InfoError ''Unable to fetch fee info'']"
proof -
  let ?b = "ex_block 10 ex_parentHash"
  let ?a = "ex_api ?b ex_events"
  have fa: "fetchAll ?a ex_hash =
              (Inr (?b, Events ex_events, Some [''alice'', ''bob'']),
               [GetBlock ex_hash, EventsAt ex_hash, ValidatorsAt ex_hash])"
    by (simp add: fetchAll_def fetchEvents_def async_defs ex_api_def)
  have au: "authorIdOf ex_deps (Some [''alice'', ''bob'']) (h_digest (b_header ?b))
              = Inr (Some ''alice'')"
    by (simp add: fetchBlock_eval)
  define xs where "xs = the (extractExtrinsics ex_deps ex_fuel ?b (Events ex_events) False)"
  have hx: "extractExtrinsics ex_deps ex_fuel ?b (Events ex_events) False = Some xs"
    unfolding xs_def by (simp add: fetchBlock_eval)
  define att where "att = projr (sanitizeEvents ex_deps (Events ex_events) xs ex_hash False)"
  have ha: "sanitizeEvents ex_deps (Events ex_events) xs ex_hash False = Inr att"
    unfolding att_def xs_def by (simp add: fetchBlock_eval)
  have ng: "\<not> isGenesis (h_parentHash (b_header ?b))"
    by (simp add: fetchBlock_eval)
  define r where "r = projr (fst (createCalcFee ?a ex_deps (h_parentHash (b_header ?b)) ?b))"
  define l' where "l' = snd (createCalcFee ?a ex_deps (h_parentHash (b_header ?b)) ?b)"
  have hc: "createCalcFee ?a ex_deps (h_parentHash (b_header ?b)) ?b = (Inr r, l')"
    unfolding r_def l'_def by (simp add: fetchBlock_eval)
  from fee_error_stays_with_its_extrinsic [OF fa au hx ha ng hc]
  show ?thesis by (simp add: fetchBlock_eval)
qed

subsection \<open>The runtime version of the fee calculator\<close>

text \<open>
  Claim C3.  When createCalcFee has the materials to build calcFee and
  returns, the spec name and the spec version that it returns and passes to
  \<^verbatim>\<open>CalcFee.from_params\<close> are those of the runtime version that the node gives
  at the parent hash of the header at the parent hash when the number of the
  block is above 1, and at the parent hash otherwise; this is the only request
  of a runtime version that it sends.
\<close>

theorem runtime_version_resolved_at_grandparent:
  assumes "createCalcFee a d parentHash block = (Inr r, l)"
    and "consts_transactionPayment a = Some tp" and "tp_transactionByteFee tp = Some perByte"
    and "extrinsicBaseWeightExists a = Inr (Some w)"
    and "query_transactionPayment_nextFeeMultiplier_at a = Some nextFeeMultiplierAt"
  shows "\<exists>pph version.
           (if 1 < h_number (b_header block)
            then \<exists>hdr. rpc_chain_getHeader a parentHash = Inr hdr \<and> pph = h_parentHash hdr
            else pph = parentHash)
           \<and> rpc_state_getRuntimeVersion a pph = Inr version
           \<and> cr_specName r = JsStr (rv_specName version)
           \<and> cr_specVersion r = JsNum (rv_specVersion version)
           \<and> (\<exists>p. cr_calcFee r = from_params d p
                  \<and> cp_specName p = JsStr (rv_specName version)
                  \<and> cp_specVersion p = JsNum (rv_specVersion version))
           \<and> GetRuntimeVersion pph \<in> set l
           \<and> (\<forall>h. GetRuntimeVersion h \<in> set l \<longrightarrow> h = pph)"
proof -
  from assms have "createCalcFeeFromParams a d parentHash block perByte nextFeeMultiplierAt = (Inr r, l)"
    by (simp add: createCalcFee_materials)
  then obtain pph version p l1 l3 where
    pp: "parentParentHash a parentHash block = (Inr pph, l1)"
    and v: "rpc_state_getRuntimeVersion a pph = Inr version"
    and r: "cr_calcFee r = from_params d p"
      "cr_specName r = JsStr (rv_specName version)"
      "cr_specVersion r = JsNum (rv_specVersion version)"
      "cp_specName p = JsStr (rv_specName version)"
      "cp_specVersion p = JsNum (rv_specVersion version)"
    and l: "l = l1 @ [GetRuntimeVersion pph, NextFeeMultiplierAt parentHash] @ l3"
    and l3: "l3 = [] \<or> l3 = [GetMetadata pph]"
    by (rule createCalcFeeFromParams_Inr)
  from parentParentHash_Inr [OF pp]
  have hdr: "if 1 < h_number (b_header block)
            then \<exists>hdr. rpc_chain_getHeader a parentHash = Inr hdr \<and> pph = h_parentHash hdr
            else pph = parentHash"
    and l1: "l1 = [] \<or> l1 = [GetHeader parentHash]"
    by (auto split: if_splits)
  from l l1 l3 have "GetRuntimeVersion pph \<in> set l"
    and "\<forall>h. GetRuntimeVersion h \<in> set l \<longrightarrow> h = pph"
    by auto
  with hdr v r show ?thesis by blast
qed

text \<open>
  The node of the example reports the version 1 at the grandparent hash and
  the version 2 at every other hash: the block 10 is given the version 1, and
  the block 1 the version 2 of its parent hash.
\<close>

theorem runtime_version_resolved_at_grandparent_witness:
  "rpc_chain_getHeader (ex_api (ex_block 10 ex_parentHash) ex_events) ex_parentHash
      = Inr (ex_header 9 ex_grandparentHash)
   \<and> rpc_state_getRuntimeVersion (ex_api (ex_block 10 ex_parentHash) ex_events) ex_grandparentHash
      = Inr \<lparr> rv_specName = ''stafi'', rv_specVersion = 1 \<rparr>
   \<and> rpc_state_getRuntimeVersion (ex_api (ex_block 10 ex_parentHash) ex_events) ex_parentHash
      = Inr \<lparr> rv_specName = ''stafi'', rv_specVersion = 2 \<rparr>
   \<and> map_sum id cr_specVersion
        (fst (createCalcFee (ex_api (ex_block 10 ex_parentHash) ex_events) ex_deps ex_parentHash
                (ex_block 10 ex_parentHash)))
      = Inr (JsNum 1)
   \<and> snd (createCalcFee (ex_api (ex_block 10 ex_parentHash) ex_events) ex_deps ex_parentHash
                (ex_block 10 ex_parentHash))
      = [GetHeader ex_parentHash, GetRuntimeVersion ex_grandparentHash,
         NextFeeMultiplierAt ex_parentHash, GetMetadata ex_grandparentHash]
   \<and> map_sum id cr_specVersion
        (fst (createCalcFee (ex_api (ex_block 1 ex_parentHash) ex_events) ex_deps ex_parentHash
                (ex_block 1 ex_parentHash)))
      = Inr (JsNum 2)
   \<and> snd (createCalcFee (ex_api (ex_block 1 ex_parentHash) ex_events) ex_deps ex_parentHash
                (ex_block 1 ex_parentHash))
      = [GetRuntimeVersion ex_parentHash, NextFeeMultiplierAt ex_parentHash]"
proof -
  let ?b = "ex_block 10 ex_parentHash"
  let ?a = "ex_api ?b ex_events"
  define r where "r = projr (fst (createCalcFee ?a ex_deps ex_parentHash ?b))"
  define l where "l = snd (createCalcFee ?a ex_deps ex_parentHash ?b)"
  have hc: "createCalcFee ?a ex_deps ex_parentHash ?b = (Inr r, l)"
    unfolding r_def l_def by (simp add: fetchBlock_eval)
  have m: "consts_transactionPayment ?a = Some
         \<lparr> tp_transactionByteFee = Some 10000000,
           tp_weightToFee = Some [\<lparr> wc_coeffInteger = 8, wc_coeffFrac = 0, wc_degree = 1,
                                    wc_negative = False \<rparr>] \<rparr>"
    "extrinsicBaseWeightExists ?a = Inr (Some 125000000)"
    "query_transactionPayment_nextFeeMultiplier_at ?a = Some (\<lambda>h. Inr 1000000000000000000)"
    by (simp_all add: ex_api_def ex_system_def extrinsicBaseWeightExists_def)
  from runtime_version_resolved_at_grandparent [OF hc m(1) _ m(2) m(3), of 10000000]
  show ?thesis by (simp add: fetchBlock_eval)
qed

subsection \<open>The historical fee per byte\<close>

text \<open>
  Claim C9.  When createCalcFee has the materials to build calcFee and
  returns, the fee per byte that it passes to \<^verbatim>\<open>CalcFee.from_params\<close> is the
  string \<^verbatim>\<open>1000000000\<close> when the number of the block is below 515500, and
  the decimal string of the constant \<^verbatim>\<open>transactionPayment.transactionByteFee\<close>
  otherwise.
\<close>

theorem historical_per_byte_fee_below_threshold:
  assumes "createCalcFee a d parentHash block = (Inr r, l)"
    and "consts_transactionPayment a = Some tp" and "tp_transactionByteFee tp = Some perByte"
    and "extrinsicBaseWeightExists a = Inr (Some w)"
    and "query_transactionPayment_nextFeeMultiplier_at a = Some nextFeeMultiplierAt"
  shows "\<exists>p. cr_calcFee r = from_params d p
           \<and> cp_perByteStr p =
               (if h_number (b_header block) < 515500 then ''1000000000'' else dec_str perByte)"
proof -
  from assms have "createCalcFeeFromParams a d parentHash block perByte nextFeeMultiplierAt = (Inr r, l)"
    by (simp add: createCalcFee_materials)
  then obtain p where "cr_calcFee r = from_params d p"
    and "cp_perByteStr p = perByteStr perByte block"
    by (rule createCalcFeeFromParams_Inr)
  then show ?thesis by (auto simp: perByteStr_def)
qed

text \<open>The blocks 10 and 515500, with the constant 10000000.\<close>

theorem historical_per_byte_fee_below_threshold_witness:
  "fst (createCalcFee (ex_api (ex_block 10 ex_parentHash) ex_events) ex_deps ex_parentHash
          (ex_block 10 ex_parentHash))
     = Inr \<lparr> cr_calcFee = Some (CalcFee
               \<lparr> cp_coefficients = [\<lparr> fc_coeffInteger = ''8'', fc_coeffFrac = 0, fc_degree = 1,
                                        fc_negative = False \<rparr>],
                 cp_extrinsicBaseWeight = 125000000,
                 cp_multiplier = ''1000000000000000000'',
                 cp_perByteStr = ''1000000000'',
                 cp_specName = JsStr ''stafi'',
                 cp_specVersion = JsNum 1 \<rparr>),
             cr_specName = JsStr ''stafi'', cr_specVersion = JsNum 1 \<rparr>
   \<and> fst (createCalcFee (ex_api (ex_block 515500 ex_parentHash) ex_events) ex_deps ex_parentHash
          (ex_block 515500 ex_parentHash))
     = Inr \<lparr> cr_calcFee = Some (CalcFee
               \<lparr> cp_coefficients = [\<lparr> fc_coeffInteger = ''8'', fc_coeffFrac = 0, fc_degree = 1,
                                        fc_negative = False \<rparr>],
                 cp_extrinsicBaseWeight = 125000000,
                 cp_multiplier = ''1000000000000000000'',
                 cp_perByteStr = ''10000000'',
                 cp_specName = JsStr ''stafi'',
                 cp_specVersion = JsNum 1 \<rparr>),
             cr_specName = JsStr ''stafi'', cr_specVersion = JsNum 1 \<rparr>"
proof -
  let ?b = "ex_block 515500 ex_parentHash"
  let ?a = "ex_api ?b ex_events"
  define r where "r = projr (fst (createCalcFee ?a ex_deps ex_parentHash ?b))"
  define l where "l = snd (createCalcFee ?a ex_deps ex_parentHash ?b)"
  have hc: "createCalcFee ?a ex_deps ex_parentHash ?b = (Inr r, l)"
    unfolding r_def l_def by (simp add: fetchBlock_eval)
  have m: "consts_transactionPayment ?a = Some
         \<lparr> tp_transactionByteFee = Some 10000000,
           tp_weightToFee = Some [\<lparr> wc_coeffInteger = 8, wc_coeffFrac = 0, wc_degree = 1,
                                    wc_negative = False \<rparr>] \<rparr>"
    "extrinsicBaseWeightExists ?a = Inr (Some 125000000)"
    "query_transactionPayment_nextFeeMultiplier_at ?a = Some (\<lambda>h. Inr 1000000000000000000)"
    by (simp_all add: ex_api_def ex_system_def extrinsicBaseWeightExists_def)
  from historical_per_byte_fee_below_threshold [OF hc m(1) _ m(2) m(3), of 10000000]
  show ?thesis by (simp add: fetchBlock_eval)
qed

subsection \<open>A runtime without the materials of the fee calculation\<close>

lemma tryFeeInfo_not_unsupported:
  "tryFeeInfo a d calcFee x raw \<noteq> Inr (InfoError (''Fee calculation not supported for '' @ s))"
  by (simp add: tryFeeInfo_def Let_def split: option.splits sum.splits)

text \<open>
  Claim C2, as the code has it.  When the constant
  \<^verbatim>\<open>transactionPayment.transactionByteFee\<close>, the base weight of an extrinsic or
  the query \<^verbatim>\<open>transactionPayment.nextFeeMultiplier.at\<close> is missing and
  createCalcFee returns, calcFee is the dummy whose \<^verbatim>\<open>calc_fee\<close> returns
  \<^verbatim>\<open>null\<close>: no extrinsic is given the message \<^verbatim>\<open>Fee calculation not supported\<close>,
  and a signed extrinsic that pays a fee and whose completing event has a
  weight is given the \<^verbatim>\<open>RuntimeDispatchInfo\<close> made with the partial fee
  \<^verbatim>\<open>null\<close> (or the message \<^verbatim>\<open>Unable to fetch fee info\<close> when making it throws).
  The message \<^verbatim>\<open>Fee calculation not supported for <specName>#<specVersion>\<close>
  is what the fee loop gives to every signed extrinsic that pays a fee when
  createCalcFee returned no calcFee at all.
\<close>

theorem missing_fee_materials_give_dummy_calculator:
  assumes "createCalcFee a d parentHash block = (Inr r, l)"
    and "(case consts_transactionPayment a of None \<Rightarrow> None | Some tp \<Rightarrow> tp_transactionByteFee tp) = None
         \<or> extrinsicBaseWeightExists a = Inr None
         \<or> query_transactionPayment_nextFeeMultiplier_at a = None"
  shows "cr_calcFee r = Some Dummy
         \<and> (\<forall>x raw s. feeInfo a d r x raw
                \<noteq> Some (InfoError (''Fee calculation not supported for '' @ s)))
         \<and> (\<forall>x raw ev weight.
               x_paysFee x = Some True \<and> re_isSigned raw
               \<and> completedEvent d (x_events x) = Some ev
               \<and> se_data ev \<noteq> [] \<and> c_weight (last (se_data ev)) = Some weight
               \<longrightarrow> feeInfo a d r x raw =
                     Some (case createType_RuntimeDispatchInfo a weight (c_class (last (se_data ev))) None of
                             Inl e \<Rightarrow> InfoError ''Unable to fetch fee info''
                           | Inr rdi \<Rightarrow> InfoDispatch rdi))
         \<and> (\<forall>r' x raw.
               cr_calcFee r' = None \<and> x_paysFee x = Some True \<and> re_isSigned raw
               \<longrightarrow> feeInfo a d r' x raw =
                     Some (InfoError (''Fee calculation not supported for ''
                       @ js_toString (cr_specName r') @ ''#'' @ js_toString (cr_specVersion r'))))"
proof (intro conjI allI impI)
  from createCalcFee_lacking [OF assms] have "createCalcFeeDummy a parentHash = (Inr r, l)" .
  from createCalcFeeDummy_Inr(1) [OF this] show dummy: "cr_calcFee r = Some Dummy" .
  {
    fix x :: extrinsic and raw :: raw_extrinsic and s :: string
    show "feeInfo a d r x raw \<noteq> Some (InfoError (''Fee calculation not supported for '' @ s))"
      using tryFeeInfo_not_unsupported [of a d Dummy x raw s]
      by (auto simp: feeInfo_def dummy split: sum.splits)
  }
  {
    fix x :: extrinsic and raw :: raw_extrinsic and ev :: sanitized_event and weight :: nat
    assume "x_paysFee x = Some True \<and> re_isSigned raw
               \<and> completedEvent d (x_events x) = Some ev
               \<and> se_data ev \<noteq> [] \<and> c_weight (last (se_data ev)) = Some weight"
    then show "feeInfo a d r x raw =
                     Some (case createType_RuntimeDispatchInfo a weight (c_class (last (se_data ev))) None of
                             Inl e \<Rightarrow> InfoError ''Unable to fetch fee info''
                           | Inr rdi \<Rightarrow> InfoDispatch rdi)"
      by (simp add: feeInfo_def tryFeeInfo_def dummy Let_def split: sum.splits)
  }
  {
    fix r' :: calc_fee_result and x :: extrinsic and raw :: raw_extrinsic
    assume "cr_calcFee r' = None \<and> x_paysFee x = Some True \<and> re_isSigned raw"
    then show "feeInfo a d r' x raw =
                     Some (InfoError (''Fee calculation not supported for ''
                       @ js_toString (cr_specName r') @ ''#'' @ js_toString (cr_specVersion r')))"
      by (simp add: feeInfo_def)
  }
qed

text \<open>
  The example api without the query of the fee multiplier is given the dummy;
  with \<^verbatim>\<open>CalcFee.from_params\<close> returning no object, the two signed extrinsics
  are given the message.
\<close>

theorem missing_fee_materials_give_dummy_calculator_witness:
  "query_transactionPayment_nextFeeMultiplier_at
      ((ex_api (ex_block 10 ex_parentHash) ex_events)
         \<lparr>query_transactionPayment_nextFeeMultiplier_at := None\<rparr>) = None
   \<and> map_sum id cr_calcFee
        (fst (createCalcFee ((ex_api (ex_block 10 ex_parentHash) ex_events)
                 \<lparr>query_transactionPayment_nextFeeMultiplier_at := None\<rparr>)
                ex_deps ex_parentHash (ex_block 10 ex_parentHash)))
      = Inr (Some Dummy)
   \<and> map x_info (result_extrinsics
        (fetchBlock (ex_api (ex_block 10 ex_parentHash) ex_events)
           (ex_deps\<lparr>from_params_supported := (\<lambda>p. False)\<rparr>) ex_fuel ex_hash False False))
      = [InfoEmpty,
         InfoError ''Fee calculation not supported for stafi#1'',
         InfoError ''Fee calculation not supported for stafi#1'']"
proof -
  let ?b = "ex_block 10 ex_parentHash"
  let ?a = "(ex_api ?b ex_events)\<lparr>query_transactionPayment_nextFeeMultiplier_at := None\<rparr>"
  define r where "r = projr (fst (createCalcFee ?a ex_deps ex_parentHash ?b))"
  define l where "l = snd (createCalcFee ?a ex_deps ex_parentHash ?b)"
  have hc: "createCalcFee ?a ex_deps ex_parentHash ?b = (Inr r, l)"
    unfolding r_def l_def by (simp add: fetchBlock_eval)
  have lacking: "(case consts_transactionPayment ?a of None \<Rightarrow> None
                  | Some tp \<Rightarrow> tp_transactionByteFee tp) = None
         \<or> extrinsicBaseWeightExists ?a = Inr None
         \<or> query_transactionPayment_nextFeeMultiplier_at ?a = None"
    by simp
  from missing_fee_materials_give_dummy_calculator [OF hc lacking]
  show ?thesis by (simp add: fetchBlock_eval)
qed

text \<open>
  Claim C2 as it is written fails: on the example api without the query of the
  fee multiplier, the two signed extrinsics that pay a fee are given a
  \<^verbatim>\<open>RuntimeDispatchInfo\<close> and no error.
\<close>

theorem unsupported_message_without_multiplier_counterexample:
  "query_transactionPayment_nextFeeMultiplier_at
      ((ex_api (ex_block 10 ex_parentHash) ex_events)
         \<lparr>query_transactionPayment_nextFeeMultiplier_at := None\<rparr>) = None
   \<and> map re_isSigned (b_extrinsics (ex_block 10 ex_parentHash)) = [False, True, True]
   \<and> map x_paysFee (result_extrinsics
        (fetchBlock ((ex_api (ex_block 10 ex_parentHash) ex_events)
           \<lparr>query_transactionPayment_nextFeeMultiplier_at := None\<rparr>)
           ex_deps ex_fuel ex_hash False False))
       = [Some False, Some True, Some True]
   \<and> map x_info (result_extrinsics
        (fetchBlock ((ex_api (ex_block 10 ex_parentHash) ex_events)
           \<lparr>query_transactionPayment_nextFeeMultiplier_at := None\<rparr>)
           ex_deps ex_fuel ex_hash False False))
       = [InfoEmpty,
          InfoDispatch (JObj [(''weight'', JNum 190949000), (''partialFee'', JStr ''0'')]),
          InfoDispatch (JObj [(''weight'', JNum 190949000), (''partialFee'', JStr ''0'')])]"
  by (simp add: fetchBlock_eval)

end
